theory Spec2Isabelle
  imports Complex_Main "HOL-Library.Char_ord" "HOL-Library.List_Lexorder" "HOL-Library.Log_Nat"
begin

section \<open>The todo API of \<^verbatim>\<open>src/api/server.js\<close>\<close>

text \<open>
  The program is one Express application: a module-level array \<^verbatim>\<open>todos\<close>, a counter
  \<^verbatim>\<open>nextId\<close>, three helpers (\<^verbatim>\<open>apiError\<close>, \<^verbatim>\<open>parseBool\<close>, \<^verbatim>\<open>sortTodos\<close>), four zod
  schemas and eight route handlers. Each handler becomes a function from the request's
  parts and the store to a response and the store after the request.

  Conventions of the embedding:
  \<^item> a JavaScript string is a \<open>string\<close>, one \<open>char\<close> per UTF-16 code unit; the model
    covers the strings whose code units are below 256, where \<open>length\<close> is \<^verbatim>\<open>.length\<close>;
  \<^item> a JavaScript number that a request can carry is a \<open>jsnum\<close>: NaN, the two infinities
    or the rational value of a double; \<^verbatim>\<open>Number\<close> and \<^verbatim>\<open>+\<close> round to the nearest double
    (\<open>-0\<close> is \<open>0\<close>);
  \<^item> the identifiers of todos and the counter \<^verbatim>\<open>nextId\<close> are integers (\<open>int\<close>), exact
    as the doubles of the program are below \<open>2 ^ 53\<close>;
  \<^item> the clock reading \<^verbatim>\<open>new Date().toISOString()\<close> of a request is the argument \<open>now\<close>;
    the response header \<^verbatim>\<open>x-request-id\<close> set by the first middleware is the argument \<open>rid\<close>.
\<close>

subsection \<open>JavaScript numbers\<close>

datatype jsnum = NaN | NegInf | Fin rat | PosInf

text \<open>
  A finite number of the program is a double (IEEE 754 binary64): a rational
  \<open>n * 2 ^ (e - 52)\<close> with \<open>n\<close> below \<open>2 ^ 53\<close> and \<open>e\<close> from \<open>-1022\<close> to \<open>1023\<close>.
  \<open>to_double\<close> rounds a rational to the nearest double, a tie to the one with the
  even \<open>n\<close>, and what rounds to \<open>2 ^ 1024\<close> or beyond to an infinity. \<open>ilog2 x\<close>, for
  a positive \<open>x\<close>, is the \<open>e\<close> with \<open>2 ^ e \<le> x < 2 ^ (e + 1)\<close>: the difference of the bit
  lengths of numerator and denominator, or one less.
\<close>

definition pow2 :: "int \<Rightarrow> rat" where
  "pow2 e = (if 0 \<le> e then 2 ^ nat e else 1 / 2 ^ nat (- e))"

definition ilog2 :: "rat \<Rightarrow> int" where
  "ilog2 x = (let e0 = bitlen (fst (quotient_of x)) - bitlen (snd (quotient_of x))
              in if pow2 e0 \<le> x then e0 else e0 - 1)"

definition round_half_even :: "rat \<Rightarrow> int" where
  "round_half_even x =
     (let f = \<lfloor>x\<rfloor>; d = x - of_int f
      in if d < 1 / 2 then f else if 1 / 2 < d then f + 1 else if even f then f else f + 1)"

definition to_double :: "rat \<Rightarrow> jsnum" where
  "to_double x =
     (if x = 0 then Fin 0
      else
        let m = \<bar>x\<bar>;
            e = max (ilog2 m) (- 1022);
            q = pow2 (e - 52);
            n = round_half_even (m / q)
        in if 1024 \<le> e \<or> (e = 1023 \<and> n = 2 ^ 53)
           then (if x < 0 then NegInf else PosInf)
           else Fin (if x < 0 then - (of_int n * q) else of_int n * q))"

text \<open>The operator \<^verbatim>\<open><\<close> on two numbers; \<^verbatim>\<open>a > b\<close> is \<open>js_lt b a\<close>.\<close>

fun js_lt :: "jsnum \<Rightarrow> jsnum \<Rightarrow> bool" where
  "js_lt NaN b = False"
| "js_lt a NaN = False"
| "js_lt a NegInf = False"
| "js_lt NegInf b = True"
| "js_lt PosInf b = False"
| "js_lt (Fin x) PosInf = True"
| "js_lt (Fin x) (Fin y) = (x < y)"

text \<open>The operator \<^verbatim>\<open>+\<close> on two numbers: the sum of two doubles, rounded.\<close>

fun js_add :: "jsnum \<Rightarrow> jsnum \<Rightarrow> jsnum" where
  "js_add NaN b = NaN"
| "js_add a NaN = NaN"
| "js_add (Fin x) (Fin y) = to_double (x + y)"
| "js_add PosInf NegInf = NaN"
| "js_add NegInf PosInf = NaN"
| "js_add PosInf b = PosInf"
| "js_add a PosInf = PosInf"
| "js_add NegInf b = NegInf"
| "js_add a NegInf = NegInf"

text \<open>\<^verbatim>\<open>Math.min\<close> and \<^verbatim>\<open>Math.max\<close> of two numbers: NaN when either is NaN.\<close>

definition Math_min :: "jsnum \<Rightarrow> jsnum \<Rightarrow> jsnum" where
  "Math_min a b = (if a = NaN \<or> b = NaN then NaN else if js_lt b a then b else a)"

definition Math_max :: "jsnum \<Rightarrow> jsnum \<Rightarrow> jsnum" where
  "Math_max a b = (if a = NaN \<or> b = NaN then NaN else if js_lt a b then b else a)"

definition js_neg :: "jsnum \<Rightarrow> jsnum" where
  "js_neg a = (case a of NaN \<Rightarrow> NaN | NegInf \<Rightarrow> PosInf | Fin x \<Rightarrow> Fin (- x) | PosInf \<Rightarrow> NegInf)"

subsection \<open>JavaScript strings\<close>

text \<open>White space and line terminators among the code units below 256.\<close>

definition is_ws :: "char \<Rightarrow> bool" where
  "is_ws c = (of_char c \<in> {9, 10, 11, 12, 13, 32, 160 :: nat})"

text \<open>\<^verbatim>\<open>String.prototype.trim\<close>.\<close>

definition trim :: "string \<Rightarrow> string" where
  "trim s = rev (dropWhile is_ws (rev (dropWhile is_ws s)))"

text \<open>\<^verbatim>\<open>String.prototype.toLowerCase\<close>: A to Z, and the capital letters of Latin-1.\<close>

definition lower_char :: "char \<Rightarrow> char" where
  "lower_char c = (let n = of_char c :: nat in
     if (65 \<le> n \<and> n \<le> 90) \<or> (192 \<le> n \<and> n \<le> 222 \<and> n \<noteq> 215)
     then char_of (n + 32) else c)"

definition toLowerCase :: "string \<Rightarrow> string" where
  "toLowerCase s = map lower_char s"

text \<open>\<^verbatim>\<open>String.prototype.includes\<close>: \<open>js_includes s q\<close> when \<open>q\<close> occurs in \<open>s\<close>.\<close>

fun starts_with :: "string \<Rightarrow> string \<Rightarrow> bool" where
  "starts_with s [] = True"
| "starts_with [] (c # q) = False"
| "starts_with (d # s) (c # q) = (d = c \<and> starts_with s q)"

fun js_includes :: "string \<Rightarrow> string \<Rightarrow> bool" where
  "js_includes [] q = (q = [])"
| "js_includes (d # s) q = (starts_with (d # s) q \<or> js_includes s q)"

subsection \<open>\<^verbatim>\<open>Number(string)\<close>\<close>

text \<open>
  The conversion of a string to a number (ECMAScript's StringToNumber): the string is
  trimmed; the empty string is 0; \<^verbatim>\<open>0x\<close>, \<^verbatim>\<open>0o\<close> and \<^verbatim>\<open>0b\<close> start an unsigned
  integer in base 16, 8 or 2; anything else is an optionally signed decimal literal
  (digits, an optional fraction, an optional exponent, or \<^verbatim>\<open>Infinity\<close>); what is none of
  these is NaN. The result is the double nearest to the literal's value: a long literal
  is rounded (\<^verbatim>\<open>1.0000000000000000001\<close> is 1) and a huge one is an infinity.
\<close>

definition digit_of :: "char \<Rightarrow> int option" where
  "digit_of c = (let n = of_char c :: int in
     if 48 \<le> n \<and> n \<le> 57 then Some (n - 48)
     else if 97 \<le> n \<and> n \<le> 102 then Some (n - 87)
     else if 65 \<le> n \<and> n \<le> 70 then Some (n - 55)
     else None)"

definition is_digit :: "char \<Rightarrow> bool" where
  "is_digit c = (48 \<le> (of_char c :: nat) \<and> (of_char c :: nat) \<le> 57)"

fun digits_val :: "int \<Rightarrow> string \<Rightarrow> int \<Rightarrow> int option" where
  "digits_val b [] acc = Some acc"
| "digits_val b (c # cs) acc =
     (case digit_of c of
        None \<Rightarrow> None
      | Some d \<Rightarrow> if d < b then digits_val b cs (acc * b + d) else None)"

definition parse_digits :: "int \<Rightarrow> string \<Rightarrow> int option" where
  "parse_digits b s = (if s = [] then None else digits_val b s 0)"

fun signed_integer :: "string \<Rightarrow> int option" where
  "signed_integer [] = None"
| "signed_integer (c # ds) =
     (if c = CHR ''+'' then parse_digits 10 ds
      else if c = CHR ''-'' then map_option uminus (parse_digits 10 ds)
      else parse_digits 10 (c # ds))"

fun exponent_part :: "string \<Rightarrow> int option" where
  "exponent_part [] = Some 0"
| "exponent_part (c # r) =
     (if c = CHR ''e'' \<or> c = CHR ''E'' then signed_integer r else None)"

definition scale10 :: "rat \<Rightarrow> int \<Rightarrow> rat" where
  "scale10 m e = (if 0 \<le> e then m * 10 ^ nat e else m / 10 ^ nat (- e))"

definition unsigned_decimal :: "string \<Rightarrow> jsnum" where
  "unsigned_decimal s =
     (if s = ''Infinity'' then PosInf
      else
        let ip = takeWhile is_digit s;
            r1 = dropWhile is_digit s;
            dot = (r1 \<noteq> [] \<and> hd r1 = CHR ''.'');
            fp = (if dot then takeWhile is_digit (tl r1) else []);
            r2 = (if dot then dropWhile is_digit (tl r1) else r1)
        in if ip = [] \<and> fp = [] then NaN
           else (case digits_val 10 (ip @ fp) 0 of
                   None \<Rightarrow> NaN
                 | Some m \<Rightarrow>
                     (case exponent_part r2 of
                        None \<Rightarrow> NaN
                      | Some e \<Rightarrow> to_double (scale10 (of_int m) (e - int (length fp))))))"

definition radix_of :: "char \<Rightarrow> int option" where
  "radix_of c =
     (if c = CHR ''x'' \<or> c = CHR ''X'' then Some 16
      else if c = CHR ''o'' \<or> c = CHR ''O'' then Some 8
      else if c = CHR ''b'' \<or> c = CHR ''B'' then Some 2
      else None)"

definition Number :: "string \<Rightarrow> jsnum" where
  "Number str =
     (case trim str of
        [] \<Rightarrow> Fin 0
      | c # r \<Rightarrow>
          (case (if c = CHR ''0'' \<and> r \<noteq> [] then radix_of (hd r) else None) of
             Some b \<Rightarrow> (case parse_digits b (tl r) of None \<Rightarrow> NaN | Some n \<Rightarrow> to_double (of_int n))
           | None \<Rightarrow>
               if c = CHR ''+'' then unsigned_decimal r
               else if c = CHR ''-'' then js_neg (unsigned_decimal r)
               else unsigned_decimal (c # r)))"

subsection \<open>Arrays\<close>

text \<open>
  \<^verbatim>\<open>Array.prototype.slice(start, end)\<close> with two numbers: each is truncated to an integer
  (NaN is 0), a negative one counts from the end, and both are clamped to the length.
\<close>

definition trunc :: "rat \<Rightarrow> int" where
  "trunc r = (if 0 \<le> r then \<lfloor>r\<rfloor> else \<lceil>r\<rceil>)"

definition rel_index :: "jsnum \<Rightarrow> nat \<Rightarrow> nat" where
  "rel_index a len =
     (case a of
        NaN \<Rightarrow> 0
      | NegInf \<Rightarrow> 0
      | PosInf \<Rightarrow> len
      | Fin r \<Rightarrow> if trunc r < 0 then nat (int len + trunc r) else min (nat (trunc r)) len)"

definition js_slice :: "jsnum \<Rightarrow> jsnum \<Rightarrow> 'a list \<Rightarrow> 'a list" where
  "js_slice s e xs =
     (let k = rel_index s (length xs); final = rel_index e (length xs)
      in take (final - k) (drop k xs))"

text \<open>
  \<^verbatim>\<open>Array.prototype.sort(compareFn)\<close> is stable: \<open>a\<close> stays before \<open>b\<close> unless
  \<open>compareFn a b\<close> is positive. On a consistent comparison every stable sort returns the
  same array; this one inserts from the right.
\<close>

fun insert_by :: "('a \<Rightarrow> 'a \<Rightarrow> int) \<Rightarrow> 'a \<Rightarrow> 'a list \<Rightarrow> 'a list" where
  "insert_by cmp x [] = [x]"
| "insert_by cmp x (y # ys) = (if cmp x y \<le> 0 then x # y # ys else y # insert_by cmp x ys)"

definition sort_by :: "('a \<Rightarrow> 'a \<Rightarrow> int) \<Rightarrow> 'a list \<Rightarrow> 'a list" where
  "sort_by cmp xs = foldr (insert_by cmp) xs []"

text \<open>\<^verbatim>\<open>Array.prototype.findIndex\<close>; \<open>None\<close> is the result \<^verbatim>\<open>-1\<close>.\<close>

fun findIndex :: "('a \<Rightarrow> bool) \<Rightarrow> 'a list \<Rightarrow> nat option" where
  "findIndex p [] = None"
| "findIndex p (x # xs) = (if p x then Some 0 else map_option Suc (findIndex p xs))"

subsection \<open>The store, requests and responses\<close>

text \<open>An element of \<^verbatim>\<open>todos\<close>: \<^verbatim>\<open>{ id, text, done, createdAt, updatedAt }\<close>.\<close>

record todo =
  t_id :: int
  t_text :: string
  t_done :: bool
  t_createdAt :: string
  t_updatedAt :: string

text \<open>The module-level state: \<^verbatim>\<open>let todos = [...]\<close> and \<^verbatim>\<open>let nextId = 2\<close>.\<close>

record store =
  todos :: "todo list"
  nextId :: int

text \<open>
  The store at start-up. The seed's text (it has a code unit above 255) and the two
  clock readings of its timestamps are arguments.
\<close>

definition initial_store :: "string \<Rightarrow> string \<Rightarrow> string \<Rightarrow> store" where
  "initial_store seed c u =
     \<lparr>todos = [\<lparr>t_id = 1, t_text = seed, t_done = False, t_createdAt = c, t_updatedAt = u\<rparr>],
      nextId = 2\<rparr>"

text \<open>
  A value of \<^verbatim>\<open>req.query\<close> as Express parses it: a string, an array (a repeated
  parameter) or an object (a bracketed one).
\<close>

datatype qval = QStr string | QArr "qval list" | QObj

fun join :: "string list \<Rightarrow> string" where
  "join [] = []"
| "join [s] = s"
| "join (s # t # r) = s @ '','' @ join (t # r)"

fun toString :: "qval \<Rightarrow> string" where
  "toString (QStr s) = s"
| "toString (QArr vs) = join (map toString vs)"
| "toString QObj = ''[object Object]''"

text \<open>\<^verbatim>\<open>v || d\<close> for a query parameter: absent and the empty string are falsy.\<close>

fun or_default :: "qval option \<Rightarrow> qval \<Rightarrow> qval" where
  "or_default None d = d"
| "or_default (Some (QStr s)) d = (if s = [] then d else QStr s)"
| "or_default (Some v) d = v"

text \<open>\<^verbatim>\<open>Number(v || d)\<close> with a numeric default \<open>d\<close>.\<close>

fun number_or :: "qval option \<Rightarrow> rat \<Rightarrow> jsnum" where
  "number_or None d = Fin d"
| "number_or (Some (QStr s)) d = (if s = [] then Fin d else Number s)"
| "number_or (Some v) d = Number (toString v)"

record query =
  query_limit :: "qval option"
  query_offset :: "qval option"
  query_q :: "qval option"
  query_done :: "qval option"
  query_sort :: "qval option"
  query_order :: "qval option"

text \<open>\<^verbatim>\<open>req.body\<close> as \<^verbatim>\<open>express.json()\<close> leaves it; an object lists each key once.\<close>

datatype json =
  JNull | JBool bool | JNum rat | JStr string | JArr "json list" | JObj "(string \<times> json) list"

text \<open>
  \<^verbatim>\<open>express.json()\<close> (line 15) is strict: of the JSON texts only an object or an array
  becomes \<^verbatim>\<open>req.body\<close>, and a request without a JSON body has the body \<^verbatim>\<open>{}\<close>. Any
  other JSON text (a number, a string, \<^verbatim>\<open>true\<close>, \<^verbatim>\<open>null\<close>) is refused by the
  middleware, and the request never reaches a route. So the bodies a handler is called
  with are the ones \<open>body_parsed\<close> holds of.
\<close>

definition body_parsed :: "json \<Rightarrow> bool" where
  "body_parsed b = (case b of JObj kvs \<Rightarrow> True | JArr xs \<Rightarrow> True | _ \<Rightarrow> False)"

text \<open>
  What \<^verbatim>\<open>parsed.error.flatten()\<close> keeps of a zod error, without the messages: an issue
  of the whole body, or the name of the field an issue is under.
\<close>

datatype issue = FormIssue | FieldIssue string

record meta =
  meta_total :: nat
  meta_limit :: jsnum
  meta_offset :: jsnum
  meta_hasNext :: bool
  meta_hasPrev :: bool

text \<open>
  The bodies the handlers send. \<open>ErrorBody code message details requestId\<close> is the
  envelope of \<^verbatim>\<open>apiError\<close>, with \<open>None\<close> for \<^verbatim>\<open>details: null\<close>.
\<close>

datatype body =
    ListBody "todo list" meta
  | TodoBody todo
  | ItemsBody "todo list"
  | StatsBody nat nat int
  | ErrorBody string string "issue list option" string
  | NoBody

record response =
  status :: nat
  body :: body

subsection \<open>Helpers\<close>

definition apiError :: "string \<Rightarrow> nat \<Rightarrow> string \<Rightarrow> string \<Rightarrow> issue list option \<Rightarrow> response" where
  "apiError rid st code message details = \<lparr>status = st, body = ErrorBody code message details rid\<rparr>"

definition parseBool :: "string \<Rightarrow> bool option" where
  "parseBool v = (if v = ''true'' then Some True else if v = ''false'' then Some False else None)"

text \<open>\<^verbatim>\<open>a[key] > b[key]\<close>: numbers for \<^verbatim>\<open>id\<close>, strings by code units for the timestamps.\<close>

definition gt_key :: "string \<Rightarrow> todo \<Rightarrow> todo \<Rightarrow> bool" where
  "gt_key key a b =
     (if key = ''updatedAt'' then t_updatedAt b < t_updatedAt a
      else if key = ''createdAt'' then t_createdAt b < t_createdAt a
      else t_id b < t_id a)"

text \<open>The comparison function of \<^verbatim>\<open>sortTodos\<close>.\<close>

definition compare_by :: "string \<Rightarrow> int \<Rightarrow> todo \<Rightarrow> todo \<Rightarrow> int" where
  "compare_by key dir a b = (if gt_key key a b then 1 * dir else if gt_key key b a then - 1 * dir else 0)"

definition dir_of :: "string \<Rightarrow> int" where
  "dir_of orderq = (if orderq = ''desc'' then - 1 else 1)"

definition key_of :: "string \<Rightarrow> string" where
  "key_of sortq =
     (if sortq = ''updatedAt'' then ''updatedAt''
      else if sortq = ''createdAt'' then ''createdAt'' else ''id'')"

subsection \<open>The arrays of a list request\<close>

text \<open>
  \<^verbatim>\<open>let items = todos\<close> makes \<^verbatim>\<open>items\<close> the array of the store itself, and
  \<^verbatim>\<open>Array.prototype.sort\<close> sorts in place. The list handler therefore runs on a heap of
  arrays: address 0 holds \<^verbatim>\<open>todos\<close>, \<^verbatim>\<open>filter\<close> and \<^verbatim>\<open>slice\<close> allocate, \<^verbatim>\<open>sort\<close>
  overwrites the array it is called on.
\<close>

record heap =
  arr :: "nat \<Rightarrow> todo list"
  fresh :: nat

definition alloc :: "todo list \<Rightarrow> heap \<Rightarrow> nat \<times> heap" where
  "alloc xs h = (fresh h, \<lparr>arr = (arr h)(fresh h := xs), fresh = Suc (fresh h)\<rparr>)"

definition arr_filter :: "(todo \<Rightarrow> bool) \<Rightarrow> nat \<Rightarrow> heap \<Rightarrow> nat \<times> heap" where
  "arr_filter p a h = alloc (filter p (arr h a)) h"

definition arr_slice :: "jsnum \<Rightarrow> jsnum \<Rightarrow> nat \<Rightarrow> heap \<Rightarrow> nat \<times> heap" where
  "arr_slice s e a h = alloc (js_slice s e (arr h a)) h"

text \<open>\<^verbatim>\<open>slice()\<close> with no argument: a copy.\<close>

definition arr_copy :: "nat \<Rightarrow> heap \<Rightarrow> nat \<times> heap" where
  "arr_copy a h = alloc (arr h a) h"

definition arr_sort :: "(todo \<Rightarrow> todo \<Rightarrow> int) \<Rightarrow> nat \<Rightarrow> heap \<Rightarrow> nat \<times> heap" where
  "arr_sort cmp a h = (a, h\<lparr>arr := (arr h)(a := sort_by cmp (arr h a))\<rparr>)"

definition sortTodos :: "nat \<Rightarrow> string \<Rightarrow> string \<Rightarrow> heap \<Rightarrow> nat \<times> heap" where
  "sortTodos items sortq orderq h =
     (let dir = dir_of orderq;
          key = key_of sortq;
          (c, h1) = arr_copy items h
      in arr_sort (compare_by key dir) c h1)"

text \<open>The store after a handler that ran on the heap: \<^verbatim>\<open>todos\<close> is still the array at 0.\<close>

definition with_heap :: "store \<Rightarrow> response \<times> heap \<Rightarrow> response \<times> store" where
  "with_heap st rh = (fst rh, st\<lparr>todos := arr (snd rh) 0\<rparr>)"

subsection \<open>Validation\<close>

text \<open>
  The four zod schemas. \<^verbatim>\<open>safeParse\<close> returns \<open>Inr\<close> the parsed data or \<open>Inl\<close> the
  issues. \<^verbatim>\<open>z.object\<close> wants an object and reads each declared key (an absent key is
  \<^verbatim>\<open>undefined\<close>); \<^verbatim>\<open>z.string().trim().min(1).max(200)\<close> wants a string whose trimmed
  length is 1 to 200 and returns it trimmed; \<^verbatim>\<open>z.boolean()\<close> wants a boolean;
  \<^verbatim>\<open>.optional()\<close> also accepts an absent key.
\<close>

definition z_text :: "json option \<Rightarrow> string option" where
  "z_text v =
     (case v of
        Some (JStr s) \<Rightarrow> (let t = trim s in if 1 \<le> length t \<and> length t \<le> 200 then Some t else None)
      | _ \<Rightarrow> None)"

definition z_boolean :: "json option \<Rightarrow> bool option" where
  "z_boolean v = (case v of Some (JBool b) \<Rightarrow> Some b | _ \<Rightarrow> None)"

definition z_optional :: "(json option \<Rightarrow> 'a option) \<Rightarrow> json option \<Rightarrow> 'a option option" where
  "z_optional f v = (case v of None \<Rightarrow> Some None | Some x \<Rightarrow> map_option Some (f (Some x)))"

definition TodoCreateSchema :: "json \<Rightarrow> issue list + string" where
  "TodoCreateSchema b =
     (case b of
        JObj kvs \<Rightarrow>
          (case z_text (map_of kvs ''text'') of
             None \<Rightarrow> Inl [FieldIssue ''text'']
           | Some t \<Rightarrow> Inr t)
      | _ \<Rightarrow> Inl [FormIssue])"

definition TodoPutSchema :: "json \<Rightarrow> issue list + string \<times> bool" where
  "TodoPutSchema b =
     (case b of
        JObj kvs \<Rightarrow>
          (case z_text (map_of kvs ''text'') of
             None \<Rightarrow>
               (case z_boolean (map_of kvs ''done'') of
                  None \<Rightarrow> Inl [FieldIssue ''text'', FieldIssue ''done'']
                | Some d \<Rightarrow> Inl [FieldIssue ''text''])
           | Some t \<Rightarrow>
               (case z_boolean (map_of kvs ''done'') of
                  None \<Rightarrow> Inl [FieldIssue ''done'']
                | Some d \<Rightarrow> Inr (t, d)))
      | _ \<Rightarrow> Inl [FormIssue])"

text \<open>The \<^verbatim>\<open>refine\<close> of the patch schema: one of the two fields is not \<^verbatim>\<open>undefined\<close>.\<close>

definition TodoPatchSchema :: "json \<Rightarrow> issue list + string option \<times> bool option" where
  "TodoPatchSchema b =
     (case b of
        JObj kvs \<Rightarrow>
          (case z_optional z_text (map_of kvs ''text'') of
             None \<Rightarrow>
               (case z_optional z_boolean (map_of kvs ''done'') of
                  None \<Rightarrow> Inl [FieldIssue ''text'', FieldIssue ''done'']
                | Some d \<Rightarrow> Inl [FieldIssue ''text''])
           | Some t \<Rightarrow>
               (case z_optional z_boolean (map_of kvs ''done'') of
                  None \<Rightarrow> Inl [FieldIssue ''done'']
                | Some d \<Rightarrow> if t \<noteq> None \<or> d \<noteq> None then Inr (t, d) else Inl [FormIssue]))
      | _ \<Rightarrow> Inl [FormIssue])"

text \<open>\<^verbatim>\<open>z.array(TodoCreateSchema)\<close>: every element parses, or the array does not.\<close>

fun parse_items :: "json list \<Rightarrow> string list option" where
  "parse_items [] = Some []"
| "parse_items (x # xs) =
     (case TodoCreateSchema x of
        Inl e \<Rightarrow> None
      | Inr t \<Rightarrow> map_option ((#) t) (parse_items xs))"

definition BulkCreateSchema :: "json \<Rightarrow> issue list + string list" where
  "BulkCreateSchema b =
     (case b of
        JObj kvs \<Rightarrow>
          (case map_of kvs ''items'' of
             Some (JArr xs) \<Rightarrow>
               (case parse_items xs of
                  None \<Rightarrow> Inl [FieldIssue ''items'']
                | Some ts \<Rightarrow>
                    if 1 \<le> length xs \<and> length xs \<le> 100 then Inr ts else Inl [FieldIssue ''items''])
           | _ \<Rightarrow> Inl [FieldIssue ''items''])
      | _ \<Rightarrow> Inl [FormIssue])"

subsection \<open>The routes\<close>

text \<open>The constants the list handler reads from the query (lines 144 and 154 to 159).\<close>

definition q_of :: "query \<Rightarrow> string" where
  "q_of qry = toLowerCase (trim (toString (or_default (query_q qry) (QStr []))))"

definition sort_of :: "query \<Rightarrow> string" where
  "sort_of qry = toString (or_default (query_sort qry) (QStr ''createdAt''))"

definition order_of :: "query \<Rightarrow> string" where
  "order_of qry = toString (or_default (query_order qry) (QStr ''desc''))"

definition limit_of :: "query \<Rightarrow> jsnum" where
  "limit_of qry = Math_min (number_or (query_limit qry) 20) (Fin 100)"

definition offset_of :: "query \<Rightarrow> jsnum" where
  "offset_of qry = Math_max (number_or (query_offset qry) 0) (Fin 0)"

text \<open>Lines 154 to 172 of the list handler: sort, paginate, respond.\<close>

definition list_page :: "query \<Rightarrow> nat \<Rightarrow> heap \<Rightarrow> response \<times> heap" where
  "list_page qry items h =
     (let (items1, h1) = sortTodos items (sort_of qry) (order_of qry) h;
          limit = limit_of qry;
          offset = offset_of qry;
          (page, h2) = arr_slice offset (js_add offset limit) items1 h1;
          len = length (arr h2 items1)
      in (\<lparr>status = 200,
           body = ListBody (arr h2 page)
             \<lparr>meta_total = len,
              meta_limit = limit,
              meta_offset = offset,
              meta_hasNext = js_lt (js_add offset limit) (Fin (of_nat len)),
              meta_hasPrev = js_lt (Fin 0) offset\<rparr>\<rparr>,
          h2))"

text \<open>\<^verbatim>\<open>GET /v1/todos\<close>.\<close>

definition list_todos :: "string \<Rightarrow> query \<Rightarrow> store \<Rightarrow> response \<times> store" where
  "list_todos rid qry st =
     (let h0 = \<lparr>arr = (\<lambda>a. [])(0 := todos st), fresh = 1\<rparr>;
          q = q_of qry;
          (items, h1) =
            (if q \<noteq> [] then arr_filter (\<lambda>t. js_includes (toLowerCase (t_text t)) q) 0 h0
             else (0, h0))
      in case map_option toString (query_done qry) of
           None \<Rightarrow> with_heap st (list_page qry items h1)
         | Some doneRaw \<Rightarrow>
             (case parseBool doneRaw of
                None \<Rightarrow>
                  with_heap st
                    (apiError rid 400 ''VALIDATION_ERROR'' ''done must be true or false'' None, h1)
              | Some b \<Rightarrow>
                  (let (items2, h2) = arr_filter (\<lambda>t. t_done t = b) items h1
                   in with_heap st (list_page qry items2 h2))))"

text \<open>\<^verbatim>\<open>GET /v1/todos/stats\<close>.\<close>

definition stats :: "store \<Rightarrow> response \<times> store" where
  "stats st =
     (let tot = length (todos st);
          dn = length (filter t_done (todos st))
      in (\<lparr>status = 200, body = StatsBody tot dn (int tot - int dn)\<rparr>, st))"

text \<open>\<^verbatim>\<open>x.id === id\<close> for the number \<^verbatim>\<open>id = Number(req.params.id)\<close>.\<close>

definition has_id :: "jsnum \<Rightarrow> todo \<Rightarrow> bool" where
  "has_id n x = (Fin (of_int (t_id x)) = n)"

text \<open>\<^verbatim>\<open>GET /v1/todos/:id\<close>.\<close>

definition get_todo :: "string \<Rightarrow> string \<Rightarrow> store \<Rightarrow> response \<times> store" where
  "get_todo rid idp st =
     (case find (has_id (Number idp)) (todos st) of
        None \<Rightarrow> (apiError rid 404 ''NOT_FOUND'' ''Todo not found'' None, st)
      | Some t \<Rightarrow> (\<lparr>status = 200, body = TodoBody t\<rparr>, st))"

text \<open>\<^verbatim>\<open>POST /v1/todos\<close>.\<close>

definition create_todo :: "string \<Rightarrow> string \<Rightarrow> json \<Rightarrow> store \<Rightarrow> response \<times> store" where
  "create_todo now rid b st =
     (case TodoCreateSchema b of
        Inl e \<Rightarrow> (apiError rid 400 ''VALIDATION_ERROR'' ''Invalid body'' (Some e), st)
      | Inr txt \<Rightarrow>
          (let todo = \<lparr>t_id = nextId st, t_text = txt, t_done = False,
                       t_createdAt = now, t_updatedAt = now\<rparr>
           in (\<lparr>status = 201, body = TodoBody todo\<rparr>,
               \<lparr>todos = todos st @ [todo], nextId = nextId st + 1\<rparr>)))"

text \<open>The \<^verbatim>\<open>map\<close> callback of the bulk handler, run over the parsed items in order.\<close>

fun bulk_items :: "string \<Rightarrow> string list \<Rightarrow> store \<Rightarrow> todo list \<times> store" where
  "bulk_items now [] st = ([], st)"
| "bulk_items now (txt # its) st =
     (let todo = \<lparr>t_id = nextId st, t_text = txt, t_done = False,
                  t_createdAt = now, t_updatedAt = now\<rparr>;
          (created, st') = bulk_items now its \<lparr>todos = todos st @ [todo], nextId = nextId st + 1\<rparr>
      in (todo # created, st'))"

text \<open>\<^verbatim>\<open>POST /v1/todos/bulk\<close>.\<close>

definition bulk_create :: "string \<Rightarrow> string \<Rightarrow> json \<Rightarrow> store \<Rightarrow> response \<times> store" where
  "bulk_create now rid b st =
     (case BulkCreateSchema b of
        Inl e \<Rightarrow> (apiError rid 400 ''VALIDATION_ERROR'' ''Invalid body'' (Some e), st)
      | Inr its \<Rightarrow>
          (let (created, st') = bulk_items now its st
           in (\<lparr>status = 201, body = ItemsBody created\<rparr>, st')))"

text \<open>\<^verbatim>\<open>PUT /v1/todos/:id\<close>: the lookup comes first, then the body.\<close>

definition put_todo :: "string \<Rightarrow> string \<Rightarrow> string \<Rightarrow> json \<Rightarrow> store \<Rightarrow> response \<times> store" where
  "put_todo now rid idp b st =
     (case findIndex (has_id (Number idp)) (todos st) of
        None \<Rightarrow> (apiError rid 404 ''NOT_FOUND'' ''Todo not found'' None, st)
      | Some idx \<Rightarrow>
          (case TodoPutSchema b of
             Inl e \<Rightarrow> (apiError rid 400 ''VALIDATION_ERROR'' ''Invalid body'' (Some e), st)
           | Inr (txt, dn) \<Rightarrow>
               (let t' = (todos st ! idx)\<lparr>t_text := txt, t_done := dn, t_updatedAt := now\<rparr>
                in (\<lparr>status = 200, body = TodoBody t'\<rparr>, st\<lparr>todos := (todos st)[idx := t']\<rparr>))))"

text \<open>
  \<^verbatim>\<open>PATCH /v1/todos/:id\<close>: \<^verbatim>\<open>find\<close> returns the first matching object of the array,
  and the assignments change that object where it is.
\<close>

definition patch_todo :: "string \<Rightarrow> string \<Rightarrow> string \<Rightarrow> json \<Rightarrow> store \<Rightarrow> response \<times> store" where
  "patch_todo now rid idp b st =
     (case findIndex (has_id (Number idp)) (todos st) of
        None \<Rightarrow> (apiError rid 404 ''NOT_FOUND'' ''Todo not found'' None, st)
      | Some idx \<Rightarrow>
          (case TodoPatchSchema b of
             Inl e \<Rightarrow> (apiError rid 400 ''VALIDATION_ERROR'' ''Invalid body'' (Some e), st)
           | Inr (txt, dn) \<Rightarrow>
               (let t = todos st ! idx;
                    t1 = (case txt of None \<Rightarrow> t | Some s \<Rightarrow> t\<lparr>t_text := s\<rparr>);
                    t2 = (case dn of None \<Rightarrow> t1 | Some d \<Rightarrow> t1\<lparr>t_done := d\<rparr>);
                    t3 = t2\<lparr>t_updatedAt := now\<rparr>
                in (\<lparr>status = 200, body = TodoBody t3\<rparr>, st\<lparr>todos := (todos st)[idx := t3]\<rparr>))))"

text \<open>\<^verbatim>\<open>DELETE /v1/todos/:id\<close>: \<^verbatim>\<open>todos\<close> becomes the filtered array in both cases.\<close>

definition delete_todo :: "string \<Rightarrow> string \<Rightarrow> store \<Rightarrow> response \<times> store" where
  "delete_todo rid idp st =
     (let len_before = length (todos st);
          st' = st\<lparr>todos := filter (\<lambda>x. \<not> has_id (Number idp) x) (todos st)\<rparr>
      in if length (todos st') = len_before
         then (apiError rid 404 ''NOT_FOUND'' ''Todo not found'' None, st')
         else (\<lparr>status = 204, body = NoBody\<rparr>, st'))"

subsection \<open>Sequences of requests\<close>

text \<open>A request as the router hands it to one of the eight handlers.\<close>

datatype request =
    ListTodos query
  | Stats
  | GetTodo string
  | CreateTodo json
  | BulkCreate json
  | PutTodo string json
  | PatchTodo string json
  | DeleteTodo string

text \<open>One request, served at clock reading \<open>now\<close> with request id \<open>rid\<close>.\<close>

fun handle :: "string \<times> string \<times> request \<Rightarrow> store \<Rightarrow> response \<times> store" where
  "handle (now, rid, ListTodos qry) st = list_todos rid qry st"
| "handle (now, rid, Stats) st = stats st"
| "handle (now, rid, GetTodo idp) st = get_todo rid idp st"
| "handle (now, rid, CreateTodo b) st = create_todo now rid b st"
| "handle (now, rid, BulkCreate b) st = bulk_create now rid b st"
| "handle (now, rid, PutTodo idp b) st = put_todo now rid idp b st"
| "handle (now, rid, PatchTodo idp b) st = patch_todo now rid idp b st"
| "handle (now, rid, DeleteTodo idp) st = delete_todo rid idp st"

text \<open>The requests of a sequence are served one after the other (section 5 of the spec).\<close>

fun run :: "(string \<times> string \<times> request) list \<Rightarrow> store \<Rightarrow> response list \<times> store" where
  "run [] st = ([], st)"
| "run (r # rs) st =
     (let (resp, st1) = handle r st;
          (resps, st2) = run rs st1
      in (resp # resps, st2))"

text \<open>The todos a response reports as created (status 201).\<close>

definition created_by :: "response \<Rightarrow> todo list" where
  "created_by r =
     (if status r = 201
      then (case body r of TodoBody t \<Rightarrow> [t] | ItemsBody ts \<Rightarrow> ts | _ \<Rightarrow> [])
      else [])"

definition assigned_ids :: "response list \<Rightarrow> int list" where
  "assigned_ids rs = map t_id (concat (map created_by rs))"

text \<open>The three routes that only read.\<close>

fun is_read :: "request \<Rightarrow> bool" where
  "is_read (ListTodos qry) = True"
| "is_read Stats = True"
| "is_read (GetTodo idp) = True"
| "is_read r = False"

subsection \<open>What a list request computes\<close>

text \<open>
  The list handler read as a function of the array's contents: the todos the two filters
  keep, their order after \<^verbatim>\<open>sortTodos\<close>, and the response built from them.
\<close>

definition done_of :: "query \<Rightarrow> bool option option" where
  "done_of qry = map_option (\<lambda>v. parseBool (toString v)) (query_done qry)"

definition selected :: "query \<Rightarrow> todo list \<Rightarrow> todo list" where
  "selected qry xs =
     (let xs1 = (if q_of qry \<noteq> [] then filter (\<lambda>t. js_includes (toLowerCase (t_text t)) (q_of qry)) xs
                 else xs)
      in case done_of qry of
           Some (Some b) \<Rightarrow> filter (\<lambda>t. t_done t = b) xs1
         | _ \<Rightarrow> xs1)"

definition ordered :: "query \<Rightarrow> todo list \<Rightarrow> todo list" where
  "ordered qry xs = sort_by (compare_by (key_of (sort_of qry)) (dir_of (order_of qry))) xs"

definition page_response :: "query \<Rightarrow> todo list \<Rightarrow> response" where
  "page_response qry xs =
     \<lparr>status = 200,
      body = ListBody (js_slice (offset_of qry) (js_add (offset_of qry) (limit_of qry)) xs)
        \<lparr>meta_total = length xs,
         meta_limit = limit_of qry,
         meta_offset = offset_of qry,
         meta_hasNext = js_lt (js_add (offset_of qry) (limit_of qry)) (Fin (of_nat (length xs))),
         meta_hasPrev = js_lt (Fin 0) (offset_of qry)\<rparr>\<rparr>"

subsection \<open>Example data\<close>

definition no_query :: query where
  "no_query = \<lparr>query_limit = None, query_offset = None, query_q = None,
                query_done = None, query_sort = None, query_order = None\<rparr>"

definition todo_a :: todo where
  "todo_a = \<lparr>t_id = 1, t_text = ''Buy milk'', t_done = True,
             t_createdAt = ''2026-01-01T09:00:00.000Z'', t_updatedAt = ''2026-01-01T09:00:00.000Z''\<rparr>"

definition todo_b :: todo where
  "todo_b = \<lparr>t_id = 2, t_text = ''Walk dog'', t_done = False,
             t_createdAt = ''2026-01-02T09:00:00.000Z'', t_updatedAt = ''2026-01-02T09:00:00.000Z''\<rparr>"

definition todo_c :: todo where
  "todo_c = \<lparr>t_id = 3, t_text = ''Pay rent'', t_done = True,
             t_createdAt = ''2026-01-03T09:00:00.000Z'', t_updatedAt = ''2026-01-03T09:00:00.000Z''\<rparr>"

definition three_todos :: store where
  "three_todos = \<lparr>todos = [todo_a, todo_b, todo_c], nextId = 4\<rparr>"

definition t_now :: string where
  "t_now = ''2026-02-01T12:00:00.000Z''"

definition batch_ok :: json where
  "batch_ok = JObj [(''items'', JArr [JObj [(''text'', JStr '' a '')], JObj [(''text'', JStr ''b'')]])]"

definition batch_blank :: json where
  "batch_blank = JObj [(''items'', JArr [JObj [(''text'', JStr ''a'')], JObj [(''text'', JStr ''  '')]])]"

section \<open>Properties\<close>

subsection \<open>Doubles\<close>

lemma pow2_powi: "pow2 e = 2 powi e"
  by (simp add: pow2_def power_int_def field_simps)

lemma pow2_pos: "0 < pow2 e"
  by (simp add: pow2_powi)

lemma pow2_add: "pow2 (i + j) = pow2 i * pow2 j"
  by (simp add: pow2_powi power_int_add)

lemma pow2_nat: "0 \<le> e \<Longrightarrow> pow2 e = 2 ^ nat e"
  by (simp add: pow2_def)

lemma pow2_mono: "i \<le> j \<Longrightarrow> pow2 i \<le> pow2 j"
  by (simp add: pow2_powi power_int_increasing)

lemma bitlen_rat_bounds:
  fixes a :: int
  assumes "0 < a"
  shows "pow2 (bitlen a - 1) \<le> of_int a" and "(of_int a :: rat) < pow2 (bitlen a)"
proof -
  have b: "1 \<le> bitlen a" using assms by (simp add: bitlen_alt_def)
  have "2 ^ nat (bitlen a - 1) \<le> a" and "a < 2 ^ nat (bitlen a)"
    using bitlen_bounds [OF assms] by simp_all
  then have "(of_int (2 ^ nat (bitlen a - 1)) :: rat) \<le> of_int a" and "(of_int a :: rat) < of_int (2 ^ nat (bitlen a))"
    by (simp_all only: of_int_le_iff of_int_less_iff)
  then show "pow2 (bitlen a - 1) \<le> of_int a" and "(of_int a :: rat) < pow2 (bitlen a)"
    using b by (simp_all add: pow2_nat)
qed

lemma ilog2_bounds:
  assumes "0 < x"
  shows "pow2 (ilog2 x) \<le> x \<and> x < pow2 (ilog2 x + 1)"
proof -
  obtain a b where q: "quotient_of x = (a, b)" by (cases "quotient_of x")
  then have b: "0 < b" and x: "x = of_int a / of_int b"
    using quotient_of_denom_pos quotient_of_div by blast+
  then have a: "0 < a" using assms by (simp add: zero_less_divide_iff)
  let ?e = "bitlen a - bitlen b"
  have "pow2 (bitlen a - 1) \<le> of_int a" "(of_int b :: rat) < pow2 (bitlen b)"
    using bitlen_rat_bounds a b by blast+
  then have "pow2 (bitlen a - 1) * of_int b \<le> of_int a * pow2 (bitlen b)"
    using a b by (intro mult_mono) (simp_all add: pow2_pos less_imp_le)
  then have "pow2 (bitlen a - 1) / pow2 (bitlen b) \<le> x"
    using b pow2_pos [of "bitlen b"] by (simp add: x field_simps)
  then have lo: "pow2 (?e - 1) \<le> x"
    using pow2_add [of "?e - 1" "bitlen b"] pow2_pos [of "bitlen b"] by (simp add: field_simps)
  have "(of_int a :: rat) < pow2 (bitlen a)" "pow2 (bitlen b - 1) \<le> of_int b"
    using bitlen_rat_bounds a b by blast+
  then have "of_int a * pow2 (bitlen b - 1) < pow2 (bitlen a) * of_int b"
    using a b by (intro mult_less_le_imp_less) (simp_all add: pow2_pos)
  then have "x < pow2 (bitlen a) / pow2 (bitlen b - 1)"
    using b pow2_pos [of "bitlen b - 1"] by (simp add: x field_simps)
  then have hi: "x < pow2 (?e + 1)"
    using pow2_add [of "?e + 1" "bitlen b - 1"] pow2_pos [of "bitlen b - 1"] by (simp add: field_simps)
  show ?thesis
    using lo hi q by (auto simp add: ilog2_def Let_def)
qed

lemma round_half_even_int: "round_half_even (of_int k) = k"
  by (simp add: round_half_even_def)

text \<open>The integers up to \<open>2 ^ 53\<close> are doubles: rounding leaves them as they are.\<close>

lemma to_double_nat:
  assumes "n \<le> 2 ^ 53"
  shows "to_double (of_nat n) = Fin (of_nat n)"
proof (cases "n = 0")
  case True
  then show ?thesis by (simp add: to_double_def)
next
  case False
  let ?x = "of_nat n :: rat"
  let ?e = "ilog2 ?x"
  have pos: "0 < ?x" and one: "1 \<le> ?x" using False by simp_all
  have lo: "pow2 ?e \<le> ?x" and hi: "?x < pow2 (?e + 1)"
    using ilog2_bounds [OF pos] by simp_all
  have top: "?x \<le> pow2 53"
    using assms by (simp add: pow2_def of_nat_le_iff [of n "2 ^ 53", where ?'a = rat, symmetric]
        del: of_nat_le_iff)
  have e0: "0 \<le> ?e"
  proof (rule ccontr)
    assume "\<not> 0 \<le> ?e"
    then have "pow2 (?e + 1) \<le> pow2 0" by (intro pow2_mono) simp
    then show False using hi one by (simp add: pow2_def)
  qed
  have e53: "?e \<le> 53"
  proof (rule ccontr)
    assume "\<not> ?e \<le> 53"
    then have "pow2 54 \<le> pow2 ?e" by (intro pow2_mono) simp
    then have "pow2 54 \<le> pow2 53" using lo top by linarith
    then show False by (simp add: pow2_def)
  qed
  have m: "max ?e (- 1022) = ?e" using e0 by simp
  have "\<exists>k. ?x / pow2 (?e - 52) = of_int k"
  proof (cases "?e = 53")
    case True
    then have "?x = pow2 53" using lo top by simp
    then have "?x / pow2 (?e - 52) = of_int (2 ^ 52)" using True by (simp add: pow2_def)
    then show ?thesis by blast
  next
    case False
    then have "0 \<le> 52 - ?e" using e53 by simp
    then have "pow2 (52 - ?e) = of_int (2 ^ nat (52 - ?e))" by (simp add: pow2_nat)
    moreover have "?x / pow2 (?e - 52) = ?x * pow2 (52 - ?e)"
      using pow2_add [of "?e - 52" "52 - ?e"] pow2_pos [of "?e - 52"] by (simp add: pow2_def field_simps)
    ultimately have "?x / pow2 (?e - 52) = of_int (int n * 2 ^ nat (52 - ?e))" by simp
    then show ?thesis by blast
  qed
  then obtain k where k: "?x / pow2 (?e - 52) = of_int k" by blast
  then have inv: "of_int k * pow2 (?e - 52) = ?x"
    using pow2_pos [of "?e - 52"] by (simp add: field_simps)
  show ?thesis
    using pos e53 False
    by (simp add: to_double_def Let_def m k round_half_even_int inv)
qed

lemma js_add_nat: "k + l \<le> 2 ^ 53 \<Longrightarrow> js_add (Fin (of_nat k)) (Fin (of_nat l)) = Fin (of_nat (k + l))"
  using to_double_nat [of "k + l"] by simp

text \<open>
  \<^verbatim>\<open>Number\<close> rounds: a literal with more digits than a double holds is the nearest
  double, so the path segment \<^verbatim>\<open>1.0000000000000000001\<close> is the id 1.
\<close>

lemma Number_rounds:
  "Number ''1.0000000000000000001'' = Fin 1
   \<and> Number ''9007199254740993'' = Fin 9007199254740992
   \<and> Number ''0.1'' = Fin (3602879701896397 / 36028797018963968)
   \<and> get_todo ''r'' ''1.0000000000000000001'' three_todos
       = (\<lparr>status = 200, body = TodoBody todo_a\<rparr>, three_todos)"
  by code_simp

subsection \<open>The list handler on the heap\<close>

text \<open>
  \<^verbatim>\<open>sortTodos\<close> sorts the copy that \<^verbatim>\<open>slice()\<close> made, so the array it was given keeps
  its order.
\<close>

lemma sortTodos_eq:
  "sortTodos items sortq orderq h =
     (fresh h, \<lparr>arr = (arr h)(fresh h := sort_by (compare_by (key_of sortq) (dir_of orderq)) (arr h items)),
               fresh = Suc (fresh h)\<rparr>)"
  by (simp add: sortTodos_def arr_copy_def arr_sort_def alloc_def Let_def)

lemma list_page_eq:
  "0 < fresh h \<Longrightarrow> items < fresh h \<Longrightarrow>
   fst (list_page qry items h) = page_response qry (ordered qry (arr h items)) \<and>
   arr (snd (list_page qry items h)) 0 = arr h 0"
  by (simp add: list_page_def sortTodos_eq arr_slice_def alloc_def Let_def page_response_def ordered_def)

text \<open>The handler returns the store as it found it, and the response is the pure reading.\<close>

lemma list_todos_pure:
  "list_todos rid qry st =
     (if done_of qry = Some None
      then apiError rid 400 ''VALIDATION_ERROR'' ''done must be true or false'' None
      else page_response qry (ordered qry (selected qry (todos st))), st)"
  by (cases "query_done qry")
    (simp_all add: list_todos_def with_heap_def list_page_eq arr_filter_def alloc_def Let_def
      done_of_def selected_def split: option.splits)

subsection \<open>Reads\<close>

lemma get_todo_store: "snd (get_todo rid idp st) = st"
  by (simp add: get_todo_def split: option.splits)

lemma stats_store: "snd (stats st) = st"
  by (simp add: stats_def Let_def)

lemma list_todos_store: "snd (list_todos rid qry st) = st"
  by (simp add: list_todos_pure)

lemma read_store: "is_read r \<Longrightarrow> snd (handle (now, rid, r) st) = st"
  by (cases r) (simp_all add: get_todo_store stats_store list_todos_store)

lemma run_reads: "list_all (\<lambda>r. is_read (snd (snd r))) rs \<Longrightarrow> snd (run rs st) = st"
proof (induction rs arbitrary: st)
  case Nil
  then show ?case by simp
next
  case (Cons r rs)
  obtain now rid rq where r: "r = (now, rid, rq)" by (cases r)
  from Cons.prems r have "is_read rq" and rest: "list_all (\<lambda>r. is_read (snd (snd r))) rs"
    by simp_all
  then have "snd (handle r st) = st" using r read_store by simp
  then show ?case using Cons.IH [OF rest, of st]
    by (simp add: split_beta Let_def)
qed

text \<open>
  C9. The three read routes return the store they were given: the same todos in the same
  order and the same counter. The list handler sorts a copy, so \<^verbatim>\<open>todos\<close> keeps its
  insertion order; and any sequence of reads leaves the store as it was, so a read
  repeated after other reads gives the same response.
\<close>

theorem reads_never_mutate:
  "snd (list_todos rid qry st) = st \<and> snd (stats st) = st \<and> snd (get_todo rid' idp st) = st
   \<and> (list_all (\<lambda>r. is_read (snd (snd r))) rs \<longrightarrow> snd (run rs st) = st)"
  by (simp add: get_todo_store stats_store list_todos_store run_reads)

theorem reads_never_mutate_witness:
  "snd (list_todos ''r1'' (no_query\<lparr>query_sort := Some (QStr ''id''), query_order := Some (QStr ''desc'')\<rparr>) three_todos) = three_todos
   \<and> snd (stats three_todos) = three_todos
   \<and> snd (get_todo ''r2'' ''2'' three_todos) = three_todos
   \<and> list_all (\<lambda>r. is_read (snd (snd r)))
        [(t_now, ''r1'', ListTodos no_query), (t_now, ''r2'', Stats), (t_now, ''r3'', GetTodo ''2'')]
   \<and> snd (run [(t_now, ''r1'', ListTodos no_query), (t_now, ''r2'', Stats), (t_now, ''r3'', GetTodo ''2'')] three_todos) = three_todos"
  using reads_never_mutate [of "''r1''" "no_query\<lparr>query_sort := Some (QStr ''id''), query_order := Some (QStr ''desc'')\<rparr>" three_todos "''r2''" "''2''"
      "[(t_now, ''r1'', ListTodos no_query), (t_now, ''r2'', Stats), (t_now, ''r3'', GetTodo ''2'')]"]
  by simp

subsection \<open>Identifiers\<close>

lemma findIndex_Some: "findIndex p xs = Some i \<Longrightarrow> i < length xs \<and> p (xs ! i)"
  by (induction xs arbitrary: i) (auto split: if_splits)

lemma findIndex_None: "findIndex p xs = None \<longleftrightarrow> (\<forall>x \<in> set xs. \<not> p x)"
  by (induction xs) auto

lemma bulk_items_eq:
  "bulk_items now its st =
     (map (\<lambda>(i, txt). \<lparr>t_id = i, t_text = txt, t_done = False, t_createdAt = now, t_updatedAt = now\<rparr>)
        (zip [nextId st .. nextId st + int (length its) - 1] its),
      \<lparr>todos = todos st @
         map (\<lambda>(i, txt). \<lparr>t_id = i, t_text = txt, t_done = False, t_createdAt = now, t_updatedAt = now\<rparr>)
           (zip [nextId st .. nextId st + int (length its) - 1] its),
       nextId = nextId st + int (length its)\<rparr>)"
proof (induction its arbitrary: st)
  case Nil
  then show ?case by simp
next
  case (Cons tx its)
  have "[nextId st .. nextId st + int (length (tx # its)) - 1]
        = nextId st # [nextId st + 1 .. nextId st + 1 + int (length its) - 1]"
    by (simp add: upto_rec1 [of "nextId st"] algebra_simps)
  then show ?case
    by (simp add: Cons.IH Let_def algebra_simps)
qed

lemma bulk_items_ids:
  "map t_id (fst (bulk_items now its st)) = [nextId st .. nextId (snd (bulk_items now its st)) - 1]"
  by (simp add: bulk_items_eq map_fst_zip_take comp_def split_beta
      map_fst_zip [of "[nextId st .. nextId st + int (length its) - 1]" its, unfolded comp_def])

lemma handle_ids:
  "map t_id (created_by (fst (handle r st))) = [nextId st .. nextId (snd (handle r st)) - 1]
   \<and> nextId st \<le> nextId (snd (handle r st))"
proof -
  obtain now rid rq where r: "r = (now, rid, rq)" by (cases r)
  show ?thesis
  proof (cases rq)
    case (ListTodos qry)
    then show ?thesis using r by (simp add: list_todos_pure created_by_def apiError_def page_response_def)
  next
    case Stats
    then show ?thesis using r by (simp add: stats_def Let_def created_by_def apiError_def)
  next
    case (GetTodo idp)
    then show ?thesis using r by (simp add: get_todo_def created_by_def apiError_def split: option.splits)
  next
    case (CreateTodo b)
    then show ?thesis using r by (simp add: create_todo_def created_by_def apiError_def Let_def split: sum.splits)
  next
    case (BulkCreate b)
    then show ?thesis using r bulk_items_ids [of now _ st]
      by (simp add: bulk_create_def created_by_def apiError_def split_beta Let_def bulk_items_eq split: sum.splits)
  next
    case (PutTodo idp b)
    then show ?thesis using r
      by (simp add: put_todo_def created_by_def apiError_def Let_def split: sum.splits option.splits prod.splits)
  next
    case (PatchTodo idp b)
    then show ?thesis using r
      by (simp add: patch_todo_def created_by_def apiError_def Let_def split: sum.splits option.splits prod.splits)
  next
    case (DeleteTodo idp)
    then show ?thesis using r by (simp add: delete_todo_def created_by_def apiError_def Let_def)
  qed
qed

lemma ids_update_same:
  "i < length xs \<Longrightarrow> t_id x = t_id (xs ! i) \<Longrightarrow> map t_id (xs[i := x]) = map t_id xs"
  by (simp add: map_update list_update_same_conv)

lemma handle_store_ids:
  "t_id ` set (todos (snd (handle r st)))
     \<subseteq> t_id ` set (todos st) \<union> set (map t_id (created_by (fst (handle r st))))"
proof -
  obtain now rid rq where r: "r = (now, rid, rq)" by (cases r)
  show ?thesis
  proof (cases rq)
    case (ListTodos qry)
    then show ?thesis using r by (simp add: list_todos_pure)
  next
    case Stats
    then show ?thesis using r by (simp add: stats_def Let_def)
  next
    case (GetTodo idp)
    then show ?thesis using r by (simp add: get_todo_def split: option.splits)
  next
    case (CreateTodo b)
    then show ?thesis using r by (auto simp add: create_todo_def created_by_def apiError_def Let_def split: sum.splits)
  next
    case (BulkCreate b)
    then show ?thesis using r
      by (auto simp add: bulk_create_def created_by_def apiError_def split_beta Let_def bulk_items_eq split: sum.splits)
  next
    case (PutTodo idp b)
    show ?thesis
    proof (cases "findIndex (has_id (Number idp)) (todos st)")
      case None
      then show ?thesis using r PutTodo by (simp add: put_todo_def)
    next
      case (Some idx)
      then have "idx < length (todos st)" using findIndex_Some by blast
      then have "\<And>x. t_id x = t_id (todos st ! idx) \<Longrightarrow> t_id ` set ((todos st)[idx := x]) = t_id ` set (todos st)"
        using ids_update_same [of idx "todos st"] by (metis set_map)
      then show ?thesis using r PutTodo Some
        by (simp add: put_todo_def Let_def split: sum.splits prod.splits)
    qed
  next
    case (PatchTodo idp b)
    show ?thesis
    proof (cases "findIndex (has_id (Number idp)) (todos st)")
      case None
      then show ?thesis using r PatchTodo by (simp add: patch_todo_def)
    next
      case (Some idx)
      then have "idx < length (todos st)" using findIndex_Some by blast
      then have "\<And>x. t_id x = t_id (todos st ! idx) \<Longrightarrow> t_id ` set ((todos st)[idx := x]) = t_id ` set (todos st)"
        using ids_update_same [of idx "todos st"] by (metis set_map)
      then show ?thesis using r PatchTodo Some
        by (simp add: patch_todo_def Let_def split: sum.splits prod.splits option.splits)
    qed
  next
    case (DeleteTodo idp)
    then show ?thesis using r by (auto simp add: delete_todo_def Let_def)
  qed
qed

lemma upto_glue: "a \<le> b \<Longrightarrow> b \<le> c \<Longrightarrow> [a .. b - 1] @ [b .. c - 1] = [a .. c - (1::int)]"
proof (cases "b = c")
  case True
  then show ?thesis by simp
next
  case False
  assume "a \<le> b" "b \<le> c"
  with False show ?thesis using upto_split1 [of a b "c - 1"] by simp
qed

lemma run_ids:
  "assigned_ids (fst (run rs st)) = [nextId st .. nextId (snd (run rs st)) - 1]
   \<and> nextId st \<le> nextId (snd (run rs st))"
proof (induction rs arbitrary: st)
  case Nil
  then show ?case by (simp add: assigned_ids_def)
next
  case (Cons r rs)
  let ?s1 = "snd (handle r st)"
  have h: "map t_id (created_by (fst (handle r st))) = [nextId st .. nextId ?s1 - 1]"
    and le1: "nextId st \<le> nextId ?s1"
    using handle_ids [of r st] by simp_all
  have ih: "assigned_ids (fst (run rs ?s1)) = [nextId ?s1 .. nextId (snd (run rs ?s1)) - 1]"
    and le2: "nextId ?s1 \<le> nextId (snd (run rs ?s1))"
    using Cons.IH [of ?s1] by simp_all
  have "assigned_ids (fst (run (r # rs) st))
        = map t_id (created_by (fst (handle r st))) @ assigned_ids (fst (run rs ?s1))"
    by (simp add: assigned_ids_def split_beta Let_def)
  also have "\<dots> = [nextId st .. nextId (snd (run rs ?s1)) - 1]"
    using h ih upto_glue [OF le1 le2] by simp
  finally show ?case using le1 le2 by (simp add: split_beta Let_def)
qed

lemma run_store_ids:
  "t_id ` set (todos (snd (run rs st))) \<subseteq> t_id ` set (todos st) \<union> set (assigned_ids (fst (run rs st)))"
proof (induction rs arbitrary: st)
  case Nil
  then show ?case by simp
next
  case (Cons r rs)
  let ?s1 = "snd (handle r st)"
  have a: "assigned_ids (fst (run (r # rs) st))
        = map t_id (created_by (fst (handle r st))) @ assigned_ids (fst (run rs ?s1))"
    by (simp add: assigned_ids_def split_beta Let_def)
  have b: "snd (run (r # rs) st) = snd (run rs ?s1)"
    by (simp add: split_beta Let_def)
  show ?case using Cons.IH [of ?s1] handle_store_ids [of r st] unfolding a b by auto
qed

lemma run_append:
  "run (rs0 @ rs1) st =
     (fst (run rs0 st) @ fst (run rs1 (snd (run rs0 st))), snd (run rs1 (snd (run rs0 st))))"
  by (induction rs0 arbitrary: st) (simp_all add: split_beta Let_def)

lemma run_inv:
  assumes "\<forall>t \<in> set (todos st). t_id t < nextId st"
  shows "\<forall>t \<in> set (todos (snd (run rs st))). t_id t < nextId (snd (run rs st))"
proof
  fix t assume "t \<in> set (todos (snd (run rs st)))"
  then have "t_id t \<in> t_id ` set (todos st) \<union> set (assigned_ids (fst (run rs st)))"
    using run_store_ids [of rs st] by blast
  moreover have "nextId st \<le> nextId (snd (run rs st))"
    and "set (assigned_ids (fst (run rs st))) = {nextId st .. nextId (snd (run rs st)) - 1}"
    using run_ids [of rs st] by simp_all
  ultimately show "t_id t < nextId (snd (run rs st))"
    using assms by auto
qed

lemma run_fresh:
  assumes "\<forall>t \<in> set (todos st). t_id t < nextId st"
  shows "\<forall>t \<in> set (todos st). t_id t \<notin> set (assigned_ids (fst (run rs st)))"
  using assms run_ids [of rs st] by auto

lemma initial_store_ids:
  "\<forall>t \<in> set (todos (initial_store seed c u)). t_id t < nextId (initial_store seed c u)"
  by (simp add: initial_store_def)

text \<open>
  C5. From a store whose ids are all below the counter (the store at start-up is one),
  take any sequence of requests, cut anywhere into \<open>rs0\<close> and \<open>rs1\<close>. The ids the
  creations are given, in the order of the responses and of the items of each bulk
  response, increase strictly; and no todo that is in the store after \<open>rs0\<close> has an id
  that a creation of \<open>rs1\<close> is given, whether \<open>rs1\<close> deletes that todo or not.
\<close>

theorem ids_increase_never_reused:
  assumes "\<forall>t \<in> set (todos st). t_id t < nextId st"
  shows "sorted_wrt (<) (assigned_ids (fst (run (rs0 @ rs1) st)))
    \<and> (\<forall>t \<in> set (todos (snd (run rs0 st))).
          t_id t \<notin> set (assigned_ids (fst (run rs1 (snd (run rs0 st))))))
    \<and> fst (run (rs0 @ rs1) st) = fst (run rs0 st) @ fst (run rs1 (snd (run rs0 st)))"
proof -
  have "sorted_wrt (<) (assigned_ids (fst (run (rs0 @ rs1) st)))"
    using run_ids [of "rs0 @ rs1" st] by simp
  moreover have "\<forall>t \<in> set (todos (snd (run rs0 st))).
          t_id t \<notin> set (assigned_ids (fst (run rs1 (snd (run rs0 st)))))"
    using run_fresh [OF run_inv [OF assms, of rs0], of rs1] .
  ultimately show ?thesis by (simp add: run_append)
qed

theorem ids_increase_never_reused_witness:
  "list_all (\<lambda>t. t_id t < nextId three_todos) (todos three_todos)
   \<and> assigned_ids (fst (run
        ([(t_now, ''r1'', CreateTodo (JObj [(''text'', JStr ''Call mum'')]))] @
         [(t_now, ''r2'', DeleteTodo ''4''),
          (t_now, ''r3'', BulkCreate (JObj [(''items'', JArr [JObj [(''text'', JStr ''a'')], JObj [(''text'', JStr ''b'')]])]))])
        three_todos)) = [4, 5, 6]
   \<and> sorted_wrt (<) (assigned_ids (fst (run
        ([(t_now, ''r1'', CreateTodo (JObj [(''text'', JStr ''Call mum'')]))] @
         [(t_now, ''r2'', DeleteTodo ''4''),
          (t_now, ''r3'', BulkCreate (JObj [(''items'', JArr [JObj [(''text'', JStr ''a'')], JObj [(''text'', JStr ''b'')]])]))])
        three_todos)))
   \<and> map t_id (todos (snd (run [(t_now, ''r1'', CreateTodo (JObj [(''text'', JStr ''Call mum'')]))] three_todos)))
       = [1, 2, 3, 4]
   \<and> list_all (\<lambda>t. t_id t \<notin> set (assigned_ids (fst (run
        [(t_now, ''r2'', DeleteTodo ''4''),
         (t_now, ''r3'', BulkCreate (JObj [(''items'', JArr [JObj [(''text'', JStr ''a'')], JObj [(''text'', JStr ''b'')]])]))]
        (snd (run [(t_now, ''r1'', CreateTodo (JObj [(''text'', JStr ''Call mum'')]))] three_todos))))))
      (todos (snd (run [(t_now, ''r1'', CreateTodo (JObj [(''text'', JStr ''Call mum'')]))] three_todos)))"
proof -
  have h: "\<forall>t \<in> set (todos three_todos). t_id t < nextId three_todos"
    by (simp add: three_todos_def todo_a_def todo_b_def todo_c_def)
  have e: "assigned_ids (fst (run
        ([(t_now, ''r1'', CreateTodo (JObj [(''text'', JStr ''Call mum'')]))] @
         [(t_now, ''r2'', DeleteTodo ''4''),
          (t_now, ''r3'', BulkCreate (JObj [(''items'', JArr [JObj [(''text'', JStr ''a'')], JObj [(''text'', JStr ''b'')]])]))])
        three_todos)) = [4, 5, 6]"
    by code_simp
  have f: "map t_id (todos (snd (run [(t_now, ''r1'', CreateTodo (JObj [(''text'', JStr ''Call mum'')]))] three_todos)))
       = [1, 2, 3, 4]"
    by code_simp
  show ?thesis
    unfolding list_all_iff
    using ids_increase_never_reused [OF h,
        of "[(t_now, ''r1'', CreateTodo (JObj [(''text'', JStr ''Call mum'')]))]"
           "[(t_now, ''r2'', DeleteTodo ''4''),
             (t_now, ''r3'', BulkCreate (JObj [(''items'', JArr [JObj [(''text'', JStr ''a'')], JObj [(''text'', JStr ''b'')]])]))]"]
      h e f
    by blast
qed

subsection \<open>Replace and patch\<close>

lemma z_text_Some:
  "z_text v = Some tx \<longleftrightarrow> (\<exists>s. v = Some (JStr s) \<and> tx = trim s \<and> 1 \<le> length tx \<and> length tx \<le> 200)"
  by (auto simp add: z_text_def Let_def split: option.splits json.splits)

lemma z_boolean_Some: "z_boolean v = Some d \<longleftrightarrow> v = Some (JBool d)"
  by (auto simp add: z_boolean_def split: option.splits json.splits)

lemma TodoPutSchema_fields:
  "TodoPutSchema (JObj kvs) = Inr (tx, dn) \<longleftrightarrow>
     z_text (map_of kvs ''text'') = Some tx \<and> z_boolean (map_of kvs ''done'') = Some dn"
  by (simp add: TodoPutSchema_def split: option.splits)

lemma TodoPutSchema_Inr:
  "TodoPutSchema b = Inr (tx, dn) \<longleftrightarrow>
     (\<exists>kvs s. b = JObj kvs \<and> map_of kvs ''text'' = Some (JStr s) \<and> tx = trim s
        \<and> 1 \<le> length tx \<and> length tx \<le> 200 \<and> map_of kvs ''done'' = Some (JBool dn))"
proof (cases b)
  case (JObj kvs)
  then show ?thesis
    by (simp only: TodoPutSchema_fields z_text_Some z_boolean_Some) auto
qed (simp_all add: TodoPutSchema_def)

text \<open>
  C6. When a todo has the id of the path (\<^verbatim>\<open>findIndex\<close> finds it at \<open>idx\<close>) and the body
  passes \<^verbatim>\<open>TodoPutSchema\<close> with text \<open>tx\<close> and flag \<open>dn\<close>, the response is 200 with the
  todo now at \<open>idx\<close>; that todo has the new text and flag and \<^verbatim>\<open>updatedAt = now\<close>, and
  the \<^verbatim>\<open>id\<close> and \<^verbatim>\<open>createdAt\<close> it had; every other todo and the counter are as before.
\<close>

theorem put_overwrites_text_and_done:
  assumes "findIndex (has_id (Number idp)) (todos st) = Some idx"
    and "TodoPutSchema b = Inr (tx, dn)"
  shows "status (fst (put_todo now rid idp b st)) = 200
    \<and> body (fst (put_todo now rid idp b st)) = TodoBody (todos (snd (put_todo now rid idp b st)) ! idx)
    \<and> idx < length (todos st) \<and> has_id (Number idp) (todos st ! idx)
    \<and> t_text (todos (snd (put_todo now rid idp b st)) ! idx) = tx
    \<and> t_done (todos (snd (put_todo now rid idp b st)) ! idx) = dn
    \<and> t_updatedAt (todos (snd (put_todo now rid idp b st)) ! idx) = now
    \<and> t_id (todos (snd (put_todo now rid idp b st)) ! idx) = t_id (todos st ! idx)
    \<and> t_createdAt (todos (snd (put_todo now rid idp b st)) ! idx) = t_createdAt (todos st ! idx)
    \<and> length (todos (snd (put_todo now rid idp b st))) = length (todos st)
    \<and> (\<forall>j < length (todos st). j \<noteq> idx \<longrightarrow> todos (snd (put_todo now rid idp b st)) ! j = todos st ! j)
    \<and> nextId (snd (put_todo now rid idp b st)) = nextId st"
proof -
  have i: "idx < length (todos st)" and p: "has_id (Number idp) (todos st ! idx)"
    using findIndex_Some [OF assms(1)] by simp_all
  have e: "put_todo now rid idp b st =
      (\<lparr>status = 200, body = TodoBody ((todos st ! idx)\<lparr>t_text := tx, t_done := dn, t_updatedAt := now\<rparr>)\<rparr>,
       st\<lparr>todos := (todos st)[idx := (todos st ! idx)\<lparr>t_text := tx, t_done := dn, t_updatedAt := now\<rparr>]\<rparr>)"
    using assms by (simp add: put_todo_def Let_def)
  show ?thesis using i p by (simp add: e)
qed

theorem put_overwrites_text_and_done_witness:
  "findIndex (has_id (Number ''2'')) (todos three_todos) = Some 1
   \<and> TodoPutSchema (JObj [(''text'', JStr '' Walk cat ''), (''done'', JBool True)]) = Inr (''Walk cat'', True)
   \<and> put_todo t_now ''r'' ''2'' (JObj [(''text'', JStr '' Walk cat ''), (''done'', JBool True)]) three_todos
       = (\<lparr>status = 200, body = TodoBody (todo_b\<lparr>t_text := ''Walk cat'', t_done := True, t_updatedAt := t_now\<rparr>)\<rparr>,
          \<lparr>todos = [todo_a, todo_b\<lparr>t_text := ''Walk cat'', t_done := True, t_updatedAt := t_now\<rparr>, todo_c], nextId = 4\<rparr>)
   \<and> t_id (todos (snd (put_todo t_now ''r'' ''2'' (JObj [(''text'', JStr '' Walk cat ''), (''done'', JBool True)]) three_todos)) ! 1) = 2
   \<and> t_createdAt (todos (snd (put_todo t_now ''r'' ''2'' (JObj [(''text'', JStr '' Walk cat ''), (''done'', JBool True)]) three_todos)) ! 1)
       = ''2026-01-02T09:00:00.000Z''"
proof -
  have f: "findIndex (has_id (Number ''2'')) (todos three_todos) = Some 1"
    by code_simp
  have v: "TodoPutSchema (JObj [(''text'', JStr '' Walk cat ''), (''done'', JBool True)]) = Inr (''Walk cat'', True)"
    by code_simp
  have e: "put_todo t_now ''r'' ''2'' (JObj [(''text'', JStr '' Walk cat ''), (''done'', JBool True)]) three_todos
       = (\<lparr>status = 200, body = TodoBody (todo_b\<lparr>t_text := ''Walk cat'', t_done := True, t_updatedAt := t_now\<rparr>)\<rparr>,
          \<lparr>todos = [todo_a, todo_b\<lparr>t_text := ''Walk cat'', t_done := True, t_updatedAt := t_now\<rparr>, todo_c], nextId = 4\<rparr>)"
    by code_simp
  have o: "t_id (todos three_todos ! 1) = 2" "t_createdAt (todos three_todos ! 1) = ''2026-01-02T09:00:00.000Z''"
    by (simp_all add: three_todos_def todo_b_def)
  show ?thesis
    using put_overwrites_text_and_done [OF f v, of t_now "''r''"] f v e o by simp
qed

lemma z_optional_text_Some:
  "z_optional z_text v = Some tx \<longleftrightarrow>
     (v = None \<and> tx = None) \<or> (\<exists>s. v = Some (JStr s) \<and> tx = Some (trim s) \<and> 1 \<le> length (trim s) \<and> length (trim s) \<le> 200)"
  by (cases v) (auto simp add: z_optional_def z_text_Some)

lemma z_optional_boolean_Some:
  "z_optional z_boolean v = Some dn \<longleftrightarrow> (v = None \<and> dn = None) \<or> (\<exists>d. v = Some (JBool d) \<and> dn = Some d)"
  by (cases v) (auto simp add: z_optional_def z_boolean_Some)





subsection \<open>Bulk create\<close>

lemma parse_items_Some: "parse_items xs = Some ts \<longleftrightarrow> map TodoCreateSchema xs = map Inr ts"
proof (induction xs arbitrary: ts)
  case Nil
  then show ?case by auto
next
  case (Cons x xs)
  show ?case
  proof (cases "TodoCreateSchema x")
    case (Inl e)
    then show ?thesis by (cases ts) auto
  next
    case (Inr t)
    then show ?thesis using Cons.IH by (cases ts) auto
  qed
qed

lemma parse_items_None: "x \<in> set xs \<Longrightarrow> TodoCreateSchema x = Inl e \<Longrightarrow> parse_items xs = None"
  by (induction xs) (auto split: sum.splits)

lemma BulkCreateSchema_invalid_item:
  "map_of kvs ''items'' = Some (JArr xs) \<Longrightarrow> x \<in> set xs \<Longrightarrow> TodoCreateSchema x = Inl e
   \<Longrightarrow> BulkCreateSchema (JObj kvs) = Inl [FieldIssue ''items'']"
  by (simp add: BulkCreateSchema_def parse_items_None)

lemma BulkCreateSchema_Inr:
  "BulkCreateSchema b = Inr its \<longleftrightarrow>
     (\<exists>kvs xs. b = JObj kvs \<and> map_of kvs ''items'' = Some (JArr xs)
        \<and> map TodoCreateSchema xs = map Inr its \<and> 1 \<le> length xs \<and> length xs \<le> 100)"
proof (cases b)
  case (JObj kvs)
  show ?thesis
  proof (cases "map_of kvs ''items''")
    case None
    then show ?thesis using JObj by (simp add: BulkCreateSchema_def)
  next
    case (Some v)
    then show ?thesis using JObj
      by (cases v) (auto simp add: BulkCreateSchema_def parse_items_Some [symmetric] split: option.splits)
  qed
qed (simp_all add: BulkCreateSchema_def)

lemma created_nth:
  assumes "k < length its"
  shows "map (\<lambda>(i, tx). \<lparr>t_id = i, t_text = tx, t_done = False, t_createdAt = now, t_updatedAt = now\<rparr>)
           (zip [n .. n + int (length its) - 1] its) ! k
         = \<lparr>t_id = n + int k, t_text = its ! k, t_done = False, t_createdAt = now, t_updatedAt = now\<rparr>"
  using assms by (simp add: nth_upto)

text \<open>
  C4. \<^verbatim>\<open>POST /v1/todos/bulk\<close> parses the whole body before it creates anything. When the
  body does not parse (and it does not when one item of the array does not), the
  response is VALIDATION_ERROR and the store is the one before. When it parses to the
  texts \<open>its\<close> (the trimmed texts of the items, in their order), the response is 201
  with one todo per text, in that order; the \<open>k\<close>-th has the id \<open>nextId + k\<close>, the
  \<open>k\<close>-th text, \<^verbatim>\<open>done = false\<close> and \<^verbatim>\<open>createdAt = updatedAt = now\<close>, the one clock
  reading of the request; the store gains exactly these todos at its end.
\<close>

theorem bulk_create_all_or_nothing:
  "(BulkCreateSchema b = Inl e \<longrightarrow>
      bulk_create now rid b st = (apiError rid 400 ''VALIDATION_ERROR'' ''Invalid body'' (Some e), st))
   \<and> (map_of kvs ''items'' = Some (JArr xs) \<and> x \<in> set xs \<and> TodoCreateSchema x = Inl e' \<longrightarrow>
        bulk_create now rid (JObj kvs) st
          = (apiError rid 400 ''VALIDATION_ERROR'' ''Invalid body'' (Some [FieldIssue ''items'']), st))
   \<and> (map_of kvs ''items'' = Some (JArr xs) \<and> BulkCreateSchema (JObj kvs) = Inr its \<longrightarrow>
        map TodoCreateSchema xs = map Inr its)
   \<and> (BulkCreateSchema b = Inr its \<longrightarrow>
        (\<exists>created.
           bulk_create now rid b st
             = (\<lparr>status = 201, body = ItemsBody created\<rparr>,
                \<lparr>todos = todos st @ created, nextId = nextId st + int (length its)\<rparr>)
           \<and> length created = length its
           \<and> (\<forall>k < length its.
                 created ! k = \<lparr>t_id = nextId st + int k, t_text = its ! k, t_done = False,
                                 t_createdAt = now, t_updatedAt = now\<rparr>)))"
proof (intro conjI impI)
  assume "BulkCreateSchema b = Inl e"
  then show "bulk_create now rid b st = (apiError rid 400 ''VALIDATION_ERROR'' ''Invalid body'' (Some e), st)"
    by (simp add: bulk_create_def)
next
  assume "map_of kvs ''items'' = Some (JArr xs) \<and> x \<in> set xs \<and> TodoCreateSchema x = Inl e'"
  then have "BulkCreateSchema (JObj kvs) = Inl [FieldIssue ''items'']"
    using BulkCreateSchema_invalid_item by blast
  then show "bulk_create now rid (JObj kvs) st
          = (apiError rid 400 ''VALIDATION_ERROR'' ''Invalid body'' (Some [FieldIssue ''items'']), st)"
    by (simp add: bulk_create_def)
next
  assume "map_of kvs ''items'' = Some (JArr xs) \<and> BulkCreateSchema (JObj kvs) = Inr its"
  then show "map TodoCreateSchema xs = map Inr its"
    using BulkCreateSchema_Inr [of "JObj kvs" its] by auto
next
  assume ok: "BulkCreateSchema b = Inr its"
  let ?cs = "map (\<lambda>(i, tx). \<lparr>t_id = i, t_text = tx, t_done = False, t_createdAt = now, t_updatedAt = now\<rparr>)
           (zip [nextId st .. nextId st + int (length its) - 1] its)"
  have "bulk_create now rid b st
          = (\<lparr>status = 201, body = ItemsBody ?cs\<rparr>,
             \<lparr>todos = todos st @ ?cs, nextId = nextId st + int (length its)\<rparr>)"
    using ok by (simp add: bulk_create_def bulk_items_eq)
  moreover have "length ?cs = length its" by simp
  moreover have "\<forall>k < length its.
      ?cs ! k = \<lparr>t_id = nextId st + int k, t_text = its ! k, t_done = False,
                 t_createdAt = now, t_updatedAt = now\<rparr>"
    using created_nth by blast
  ultimately show "\<exists>created.
           bulk_create now rid b st
             = (\<lparr>status = 201, body = ItemsBody created\<rparr>,
                \<lparr>todos = todos st @ created, nextId = nextId st + int (length its)\<rparr>)
           \<and> length created = length its
           \<and> (\<forall>k < length its.
                 created ! k = \<lparr>t_id = nextId st + int k, t_text = its ! k, t_done = False,
                                 t_createdAt = now, t_updatedAt = now\<rparr>)"
    by blast
qed

theorem bulk_create_all_or_nothing_witness:
  "BulkCreateSchema batch_blank = Inl [FieldIssue ''items'']
   \<and> TodoCreateSchema (JObj [(''text'', JStr ''  '')]) = Inl [FieldIssue ''text'']
   \<and> bulk_create t_now ''r'' batch_blank three_todos
       = (apiError ''r'' 400 ''VALIDATION_ERROR'' ''Invalid body'' (Some [FieldIssue ''items'']), three_todos)
   \<and> BulkCreateSchema batch_ok = Inr [''a'', ''b'']
   \<and> bulk_create t_now ''r'' batch_ok three_todos
       = (\<lparr>status = 201,
           body = ItemsBody
            [\<lparr>t_id = 4, t_text = ''a'', t_done = False, t_createdAt = t_now, t_updatedAt = t_now\<rparr>,
             \<lparr>t_id = 5, t_text = ''b'', t_done = False, t_createdAt = t_now, t_updatedAt = t_now\<rparr>]\<rparr>,
          \<lparr>todos = [todo_a, todo_b, todo_c,
             \<lparr>t_id = 4, t_text = ''a'', t_done = False, t_createdAt = t_now, t_updatedAt = t_now\<rparr>,
             \<lparr>t_id = 5, t_text = ''b'', t_done = False, t_createdAt = t_now, t_updatedAt = t_now\<rparr>],
           nextId = 6\<rparr>)"
proof -
  have bad: "BulkCreateSchema batch_blank = Inl [FieldIssue ''items'']"
    by code_simp
  have blank: "TodoCreateSchema (JObj [(''text'', JStr ''  '')]) = Inl [FieldIssue ''text'']"
    by code_simp
  have good: "BulkCreateSchema batch_ok = Inr [''a'', ''b'']"
    by code_simp
  note t1 = bulk_create_all_or_nothing [of batch_blank "[FieldIssue ''items'']" t_now "''r''" three_todos
      "[(''items'', JArr [JObj [(''text'', JStr ''a'')], JObj [(''text'', JStr ''  '')]])]"
      "[JObj [(''text'', JStr ''a'')], JObj [(''text'', JStr ''  '')]]"
      "JObj [(''text'', JStr ''  '')]" "[FieldIssue ''text'']" "[]"]
  note t2 = bulk_create_all_or_nothing [of batch_ok "[]" t_now "''r''" three_todos
      "[(''items'', JArr [JObj [(''text'', JStr '' a '')], JObj [(''text'', JStr ''b'')]])]"
      "[JObj [(''text'', JStr '' a '')], JObj [(''text'', JStr ''b'')]]"
      "JObj [(''text'', JStr ''  '')]" "[FieldIssue ''text'']" "[''a'', ''b'']"]
  have r1: "bulk_create t_now ''r'' batch_blank three_todos
       = (apiError ''r'' 400 ''VALIDATION_ERROR'' ''Invalid body'' (Some [FieldIssue ''items'']), three_todos)"
    using t1 blank by (simp add: batch_blank_def)
  from t2 good obtain created where
    c: "bulk_create t_now ''r'' batch_ok three_todos
         = (\<lparr>status = 201, body = ItemsBody created\<rparr>,
            \<lparr>todos = todos three_todos @ created, nextId = nextId three_todos + int (length [''a'', ''b''])\<rparr>)"
    and l: "length created = length [''a'', ''b'']"
    and n: "\<forall>k < length [''a'', ''b'']. created ! k
          = \<lparr>t_id = nextId three_todos + int k, t_text = [''a'', ''b''] ! k, t_done = False,
             t_createdAt = t_now, t_updatedAt = t_now\<rparr>"
    by blast
  from n have "created ! 0 = \<lparr>t_id = 4, t_text = ''a'', t_done = False, t_createdAt = t_now, t_updatedAt = t_now\<rparr>"
    and "created ! 1 = \<lparr>t_id = 5, t_text = ''b'', t_done = False, t_createdAt = t_now, t_updatedAt = t_now\<rparr>"
    by (simp_all add: three_todos_def)
  with l have "created =
      [\<lparr>t_id = 4, t_text = ''a'', t_done = False, t_createdAt = t_now, t_updatedAt = t_now\<rparr>,
       \<lparr>t_id = 5, t_text = ''b'', t_done = False, t_createdAt = t_now, t_updatedAt = t_now\<rparr>]"
    by (cases created; cases "tl created") auto
  with c have r2: "bulk_create t_now ''r'' batch_ok three_todos
       = (\<lparr>status = 201,
           body = ItemsBody
            [\<lparr>t_id = 4, t_text = ''a'', t_done = False, t_createdAt = t_now, t_updatedAt = t_now\<rparr>,
             \<lparr>t_id = 5, t_text = ''b'', t_done = False, t_createdAt = t_now, t_updatedAt = t_now\<rparr>]\<rparr>,
          \<lparr>todos = [todo_a, todo_b, todo_c,
             \<lparr>t_id = 4, t_text = ''a'', t_done = False, t_createdAt = t_now, t_updatedAt = t_now\<rparr>,
             \<lparr>t_id = 5, t_text = ''b'', t_done = False, t_createdAt = t_now, t_updatedAt = t_now\<rparr>],
           nextId = 6\<rparr>)"
    by (simp add: three_todos_def)
  show ?thesis using bad blank r1 good r2 by blast
qed

subsection \<open>Validation, lookup and the id of the path\<close>

text \<open>
  The handlers below are read as Express calls them: \<open>idp\<close> is \<^verbatim>\<open>req.params.id\<close>, the
  URL-decoded segment of the path, and \<open>b\<close> is \<^verbatim>\<open>req.body\<close>, an object or an array
  (\<open>body_parsed\<close>). A request whose segment does not decode, or whose JSON body the
  middleware refuses, ends in the error handler and is answered 500; no route runs.
\<close>

text \<open>
  C3, as stated, fails: \<^verbatim>\<open>PUT\<close> and \<^verbatim>\<open>PATCH\<close> look the id up before they parse the
  body. For the id 99, which no todo has, and the body \<^verbatim>\<open>{}\<close>, which neither schema
  accepts, both answer 404 NOT_FOUND, not VALIDATION_ERROR.
\<close>

theorem lookup_precedes_validation_counterexample:
  "body_parsed (JObj [])
   \<and> TodoPutSchema (JObj []) = Inl [FieldIssue ''text'', FieldIssue ''done'']
   \<and> put_todo t_now ''r'' ''99'' (JObj []) three_todos
       = (\<lparr>status = 404, body = ErrorBody ''NOT_FOUND'' ''Todo not found'' None ''r''\<rparr>, three_todos)
   \<and> TodoPatchSchema (JObj []) = Inl [FormIssue]
   \<and> patch_todo t_now ''r'' ''99'' (JObj []) three_todos
       = (\<lparr>status = 404, body = ErrorBody ''NOT_FOUND'' ''Todo not found'' None ''r''\<rparr>, three_todos)"
  by code_simp

text \<open>
  C3, amended. For a body that reached the handler (an object or an array): the two
  \<^verbatim>\<open>POST\<close> routes parse the body first, and a body that fails the schema is answered
  400 VALIDATION_ERROR with the store left as it was. \<^verbatim>\<open>PUT\<close> and \<^verbatim>\<open>PATCH\<close> look the
  id up first: when no todo has it the answer is 404 NOT_FOUND whatever that body is;
  when a todo has it and the body fails the schema the answer is 400 VALIDATION_ERROR.
  In each of these cases the store is left as it was.
\<close>

theorem validation_and_lookup_order:
  "(body_parsed b \<and> TodoCreateSchema b = Inl e1 \<longrightarrow>
      create_todo now rid b st
        = (\<lparr>status = 400, body = ErrorBody ''VALIDATION_ERROR'' ''Invalid body'' (Some e1) rid\<rparr>, st))
   \<and> (body_parsed b \<and> BulkCreateSchema b = Inl e2 \<longrightarrow>
      bulk_create now rid b st
        = (\<lparr>status = 400, body = ErrorBody ''VALIDATION_ERROR'' ''Invalid body'' (Some e2) rid\<rparr>, st))
   \<and> (body_parsed b \<and> findIndex (has_id (Number idp)) (todos st) = None \<longrightarrow>
      put_todo now rid idp b st
        = (\<lparr>status = 404, body = ErrorBody ''NOT_FOUND'' ''Todo not found'' None rid\<rparr>, st)
      \<and> patch_todo now rid idp b st
        = (\<lparr>status = 404, body = ErrorBody ''NOT_FOUND'' ''Todo not found'' None rid\<rparr>, st))
   \<and> (body_parsed b \<and> findIndex (has_id (Number idq)) (todos st) = Some idx
        \<and> TodoPutSchema b = Inl e3 \<longrightarrow>
      put_todo now rid idq b st
        = (\<lparr>status = 400, body = ErrorBody ''VALIDATION_ERROR'' ''Invalid body'' (Some e3) rid\<rparr>, st))
   \<and> (body_parsed b \<and> findIndex (has_id (Number idq)) (todos st) = Some idx
        \<and> TodoPatchSchema b = Inl e4 \<longrightarrow>
      patch_todo now rid idq b st
        = (\<lparr>status = 400, body = ErrorBody ''VALIDATION_ERROR'' ''Invalid body'' (Some e4) rid\<rparr>, st))"
  by (simp add: create_todo_def bulk_create_def put_todo_def patch_todo_def apiError_def)

theorem validation_and_lookup_order_witness:
  "body_parsed (JObj [])
   \<and> TodoCreateSchema (JObj []) = Inl [FieldIssue ''text'']
   \<and> create_todo t_now ''r'' (JObj []) three_todos
       = (\<lparr>status = 400,
           body = ErrorBody ''VALIDATION_ERROR'' ''Invalid body'' (Some [FieldIssue ''text'']) ''r''\<rparr>,
          three_todos)
   \<and> BulkCreateSchema (JObj []) = Inl [FieldIssue ''items'']
   \<and> bulk_create t_now ''r'' (JObj []) three_todos
       = (\<lparr>status = 400,
           body = ErrorBody ''VALIDATION_ERROR'' ''Invalid body'' (Some [FieldIssue ''items'']) ''r''\<rparr>,
          three_todos)
   \<and> findIndex (has_id (Number ''99'')) (todos three_todos) = None
   \<and> put_todo t_now ''r'' ''99'' (JObj []) three_todos
       = (\<lparr>status = 404, body = ErrorBody ''NOT_FOUND'' ''Todo not found'' None ''r''\<rparr>, three_todos)
   \<and> patch_todo t_now ''r'' ''99'' (JObj []) three_todos
       = (\<lparr>status = 404, body = ErrorBody ''NOT_FOUND'' ''Todo not found'' None ''r''\<rparr>, three_todos)
   \<and> findIndex (has_id (Number ''3'')) (todos three_todos) = Some 2
   \<and> TodoPutSchema (JObj []) = Inl [FieldIssue ''text'', FieldIssue ''done'']
   \<and> put_todo t_now ''r'' ''3'' (JObj []) three_todos
       = (\<lparr>status = 400,
           body = ErrorBody ''VALIDATION_ERROR'' ''Invalid body''
             (Some [FieldIssue ''text'', FieldIssue ''done'']) ''r''\<rparr>,
          three_todos)
   \<and> TodoPatchSchema (JObj []) = Inl [FormIssue]
   \<and> patch_todo t_now ''r'' ''3'' (JObj []) three_todos
       = (\<lparr>status = 400,
           body = ErrorBody ''VALIDATION_ERROR'' ''Invalid body'' (Some [FormIssue]) ''r''\<rparr>,
          three_todos)"
proof -
  have o: "body_parsed (JObj [])" by (simp add: body_parsed_def)
  have c: "TodoCreateSchema (JObj []) = Inl [FieldIssue ''text'']" by code_simp
  have b: "BulkCreateSchema (JObj []) = Inl [FieldIssue ''items'']" by code_simp
  have n: "findIndex (has_id (Number ''99'')) (todos three_todos) = None" by code_simp
  have f: "findIndex (has_id (Number ''3'')) (todos three_todos) = Some 2" by code_simp
  have p: "TodoPutSchema (JObj []) = Inl [FieldIssue ''text'', FieldIssue ''done'']" by code_simp
  have q: "TodoPatchSchema (JObj []) = Inl [FormIssue]" by code_simp
  show ?thesis
    using validation_and_lookup_order [of "JObj []" "[FieldIssue ''text'']" t_now "''r''" three_todos
        "[FieldIssue ''items'']" "''99''" "''3''" 2 "[FieldIssue ''text'', FieldIssue ''done'']" "[FormIssue]"]
      o c b n f p q
    by simp
qed





subsection \<open>Sorting and the order parameter\<close>

lemma set_insert_by: "set (insert_by cmp x ys) = insert x (set ys)"
  by (induction ys) auto

lemma length_insert_by: "length (insert_by cmp x ys) = Suc (length ys)"
  by (induction ys) auto

lemma set_sort_by: "set (sort_by cmp xs) = set xs"
  by (induction xs) (simp_all add: sort_by_def set_insert_by)

lemma length_sort_by: "length (sort_by cmp xs) = length xs"
  by (induction xs) (simp_all add: sort_by_def length_insert_by)

lemma sorted_insert_by:
  assumes tot: "\<And>a b. cmp a b \<le> 0 \<or> cmp b a \<le> 0"
    and tr: "\<And>a b c. cmp a b \<le> 0 \<Longrightarrow> cmp b c \<le> 0 \<Longrightarrow> cmp a c \<le> 0"
  shows "sorted_wrt (\<lambda>a b. cmp a b \<le> 0) ys \<Longrightarrow> sorted_wrt (\<lambda>a b. cmp a b \<le> 0) (insert_by cmp x ys)"
proof (induction ys)
  case Nil
  then show ?case by simp
next
  case (Cons y ys)
  show ?case
  proof (cases "cmp x y \<le> 0")
    case True
    then have "\<forall>z \<in> set ys. cmp x z \<le> 0" using Cons.prems tr by auto
    with True Cons.prems show ?thesis by simp
  next
    case False
    then have "cmp y x \<le> 0" using tot by blast
    with False Cons show ?thesis by (auto simp add: set_insert_by)
  qed
qed

lemma sorted_sort_by:
  assumes tot: "\<And>a b. cmp a b \<le> 0 \<or> cmp b a \<le> 0"
    and tr: "\<And>a b c. cmp a b \<le> 0 \<Longrightarrow> cmp b c \<le> 0 \<Longrightarrow> cmp a c \<le> 0"
  shows "sorted_wrt (\<lambda>a b. cmp a b \<le> 0) (sort_by cmp xs)"
proof (induction xs)
  case Nil
  then show ?case by (simp add: sort_by_def)
next
  case (Cons x xs)
  then show ?case
    using sorted_insert_by [of cmp "sort_by cmp xs" x, OF tot tr] by (simp add: sort_by_def)
qed

lemma compare_asc: "compare_by key 1 a b \<le> 0 \<longleftrightarrow> \<not> gt_key key a b"
  by (simp add: compare_by_def)

lemma gt_key_asym: "gt_key key a b \<Longrightarrow> \<not> gt_key key b a"
  by (auto simp add: gt_key_def split: if_splits)

lemma gt_key_trans: "\<not> gt_key key a b \<Longrightarrow> \<not> gt_key key b c \<Longrightarrow> \<not> gt_key key a c"
  by (auto simp add: gt_key_def split: if_splits)

lemma compare_desc: "compare_by key (- 1) a b \<le> 0 \<longleftrightarrow> \<not> gt_key key b a"
  using gt_key_asym [of key a b] by (auto simp add: compare_by_def)

lemma compare_desc_neg: "compare_by key (- 1) a b = - compare_by key 1 a b"
  by (simp add: compare_by_def)

lemma sort_ascending: "sorted_wrt (\<lambda>a b. \<not> gt_key key a b) (sort_by (compare_by key 1) xs)"
proof -
  have "sorted_wrt (\<lambda>a b. compare_by key 1 a b \<le> 0) (sort_by (compare_by key 1) xs)"
  proof (rule sorted_sort_by)
    show "compare_by key 1 a b \<le> 0 \<or> compare_by key 1 b a \<le> 0" for a b
      using gt_key_asym [of key a b] by (auto simp add: compare_asc)
    show "compare_by key 1 a b \<le> 0 \<Longrightarrow> compare_by key 1 b c \<le> 0 \<Longrightarrow> compare_by key 1 a c \<le> 0" for a b c
      using gt_key_trans [of key a b c] by (simp add: compare_asc)
  qed
  then show ?thesis by (simp add: compare_asc)
qed

lemma sort_descending: "sorted_wrt (\<lambda>a b. \<not> gt_key key b a) (sort_by (compare_by key (- 1)) xs)"
proof -
  have "sorted_wrt (\<lambda>a b. compare_by key (- 1) a b \<le> 0) (sort_by (compare_by key (- 1)) xs)"
  proof (rule sorted_sort_by)
    show "compare_by key (- 1) a b \<le> 0 \<or> compare_by key (- 1) b a \<le> 0" for a b
      using gt_key_asym [of key a b] by (auto simp add: compare_desc)
    show "compare_by key (- 1) a b \<le> 0 \<Longrightarrow> compare_by key (- 1) b c \<le> 0 \<Longrightarrow> compare_by key (- 1) a c \<le> 0" for a b c
      using gt_key_trans [of key c b a] by (auto simp add: compare_desc)
  qed
  then show ?thesis by (simp add: compare_desc)
qed

lemma order_of_absent:
  "query_order qry = None \<or> query_order qry = Some (QStr []) \<Longrightarrow> order_of qry = ''desc''"
  by (auto simp add: order_of_def)

lemma order_update_others:
  "q_of (qry\<lparr>query_order := v\<rparr>) = q_of qry"
  "sort_of (qry\<lparr>query_order := v\<rparr>) = sort_of qry"
  "limit_of (qry\<lparr>query_order := v\<rparr>) = limit_of qry"
  "offset_of (qry\<lparr>query_order := v\<rparr>) = offset_of qry"
  "done_of (qry\<lparr>query_order := v\<rparr>) = done_of qry"
  by (simp_all add: q_of_def sort_of_def limit_of_def offset_of_def done_of_def)

lemma order_update_selected: "selected (qry\<lparr>query_order := v\<rparr>) xs = selected qry xs"
  by (simp add: selected_def order_update_others)

lemma list_todos_order_cong:
  assumes "dir_of (order_of (qry\<lparr>query_order := v\<rparr>)) = dir_of (order_of qry)"
  shows "list_todos rid (qry\<lparr>query_order := v\<rparr>) st = list_todos rid qry st"
  using assms
  by (simp add: list_todos_pure page_response_def ordered_def order_update_others order_update_selected)

text \<open>
  C1, as stated, fails: with no \<^verbatim>\<open>order\<close> parameter the handler passes \<^verbatim>\<open>"desc"\<close> to
  \<^verbatim>\<open>sortTodos\<close> (and \<^verbatim>\<open>"createdAt"\<close> as the key), so the newest todo comes first; the
  ascending order needs \<^verbatim>\<open>order=asc\<close>.
\<close>

theorem order_absent_counterexample:
  "order_of no_query = ''desc''
   \<and> fst (list_todos ''r'' no_query three_todos)
       = \<lparr>status = 200,
          body = ListBody [todo_c, todo_b, todo_a]
            \<lparr>meta_total = 3, meta_limit = Fin 20, meta_offset = Fin 0,
             meta_hasNext = False, meta_hasPrev = False\<rparr>\<rparr>
   \<and> fst (list_todos ''r'' (no_query\<lparr>query_order := Some (QStr ''asc'')\<rparr>) three_todos)
       = \<lparr>status = 200,
          body = ListBody [todo_a, todo_b, todo_c]
            \<lparr>meta_total = 3, meta_limit = Fin 20, meta_offset = Fin 0,
             meta_hasNext = False, meta_hasPrev = False\<rparr>\<rparr>"
  by code_simp

lemma sorted_js_slice: "sorted_wrt R xs \<Longrightarrow> sorted_wrt R (js_slice s e xs)"
  by (simp add: js_slice_def Let_def sorted_wrt_take sorted_wrt_drop)

text \<open>
  C1, amended. In the list handler an absent or empty \<^verbatim>\<open>order\<close> is \<^verbatim>\<open>desc\<close>: the
  response is the one of \<^verbatim>\<open>order=desc\<close>. Every value other than \<^verbatim>\<open>desc\<close> is treated as
  \<^verbatim>\<open>asc\<close>: the response is the one of \<^verbatim>\<open>order=asc\<close>. Whenever the handler answers
  with a page (the \<^verbatim>\<open>done\<close> parameter is absent or valid), the items of the response are
  the slice of the selected todos sorted with the comparison of that order: under
  \<^verbatim>\<open>desc\<close>, and so by default, no item of the response comes before one of a greater
  key; under any other value no item comes before one of a smaller key. The comparison
  of \<^verbatim>\<open>desc\<close> is the negated comparison of \<^verbatim>\<open>asc\<close>.
\<close>

theorem order_default_desc:
  "(query_order qry = None \<or> query_order qry = Some (QStr []) \<longrightarrow>
      order_of qry = ''desc''
      \<and> list_todos rid qry st = list_todos rid (qry\<lparr>query_order := Some (QStr ''desc'')\<rparr>) st)
   \<and> (order_of qry \<noteq> ''desc'' \<longrightarrow>
      list_todos rid qry st = list_todos rid (qry\<lparr>query_order := Some (QStr ''asc'')\<rparr>) st)
   \<and> (done_of qry \<noteq> Some None \<longrightarrow>
      (\<exists>page m.
         fst (list_todos rid qry st) = \<lparr>status = 200, body = ListBody page m\<rparr>
         \<and> page = js_slice (offset_of qry) (js_add (offset_of qry) (limit_of qry))
                    (sort_by (compare_by (key_of (sort_of qry)) (if order_of qry = ''desc'' then - 1 else 1))
                       (selected qry (todos st)))
         \<and> (if order_of qry = ''desc''
             then sorted_wrt (\<lambda>a b. \<not> gt_key (key_of (sort_of qry)) b a) page
             else sorted_wrt (\<lambda>a b. \<not> gt_key (key_of (sort_of qry)) a b) page)))
   \<and> compare_by key (dir_of ''desc'') a b = - compare_by key (dir_of ''asc'') a b"
proof (intro conjI impI)
  assume a: "query_order qry = None \<or> query_order qry = Some (QStr [])"
  then show d: "order_of qry = ''desc''" by (rule order_of_absent)
  have "dir_of (order_of (qry\<lparr>query_order := Some (QStr ''desc'')\<rparr>)) = dir_of (order_of qry)"
    using d by (simp add: order_of_def)
  then show "list_todos rid qry st = list_todos rid (qry\<lparr>query_order := Some (QStr ''desc'')\<rparr>) st"
    using list_todos_order_cong by simp
next
  assume n: "order_of qry \<noteq> ''desc''"
  then have "dir_of (order_of (qry\<lparr>query_order := Some (QStr ''asc'')\<rparr>)) = dir_of (order_of qry)"
    by (simp add: order_of_def dir_of_def)
  then show "list_todos rid qry st = list_todos rid (qry\<lparr>query_order := Some (QStr ''asc'')\<rparr>) st"
    using list_todos_order_cong by simp
next
  assume v: "done_of qry \<noteq> Some None"
  let ?key = "key_of (sort_of qry)"
  let ?sorted = "sort_by (compare_by ?key (if order_of qry = ''desc'' then - 1 else 1)) (selected qry (todos st))"
  let ?page = "js_slice (offset_of qry) (js_add (offset_of qry) (limit_of qry)) ?sorted"
  let ?m = "\<lparr>meta_total = length ?sorted,
         meta_limit = limit_of qry,
         meta_offset = offset_of qry,
         meta_hasNext = js_lt (js_add (offset_of qry) (limit_of qry)) (Fin (of_nat (length ?sorted))),
         meta_hasPrev = js_lt (Fin 0) (offset_of qry)\<rparr>"
  have o: "ordered qry (selected qry (todos st)) = ?sorted"
    by (simp add: ordered_def dir_of_def)
  have f: "fst (list_todos rid qry st) = \<lparr>status = 200, body = ListBody ?page ?m\<rparr>"
    using v by (simp add: list_todos_pure page_response_def o)
  have s: "if order_of qry = ''desc''
       then sorted_wrt (\<lambda>a b. \<not> gt_key ?key b a) ?page
       else sorted_wrt (\<lambda>a b. \<not> gt_key ?key a b) ?page"
  proof (cases "order_of qry = ''desc''")
    case True
    then show ?thesis using sorted_js_slice [OF sort_descending] by simp
  next
    case False
    then show ?thesis using sorted_js_slice [OF sort_ascending] by simp
  qed
  show "\<exists>page m.
         fst (list_todos rid qry st) = \<lparr>status = 200, body = ListBody page m\<rparr>
         \<and> page = js_slice (offset_of qry) (js_add (offset_of qry) (limit_of qry)) ?sorted
         \<and> (if order_of qry = ''desc''
             then sorted_wrt (\<lambda>a b. \<not> gt_key (key_of (sort_of qry)) b a) page
             else sorted_wrt (\<lambda>a b. \<not> gt_key (key_of (sort_of qry)) a b) page)"
    using f s by (intro exI [of _ ?page] exI [of _ ?m] conjI refl)
next
  show "compare_by key (dir_of ''desc'') a b = - compare_by key (dir_of ''asc'') a b"
    by (simp add: dir_of_def compare_desc_neg)
qed

theorem order_default_desc_witness:
  "query_order no_query = None
   \<and> order_of no_query = ''desc''
   \<and> done_of no_query \<noteq> Some None
   \<and> fst (list_todos ''r'' no_query three_todos)
       = \<lparr>status = 200,
          body = ListBody [todo_c, todo_b, todo_a]
            \<lparr>meta_total = 3, meta_limit = Fin 20, meta_offset = Fin 0,
             meta_hasNext = False, meta_hasPrev = False\<rparr>\<rparr>
   \<and> list_todos ''r'' no_query three_todos
       = list_todos ''r'' (no_query\<lparr>query_order := Some (QStr ''desc'')\<rparr>) three_todos
   \<and> sorted_wrt (\<lambda>a b. \<not> gt_key ''createdAt'' b a) [todo_c, todo_b, todo_a]
   \<and> order_of (no_query\<lparr>query_order := Some (QStr ''up'')\<rparr>) \<noteq> ''desc''
   \<and> done_of (no_query\<lparr>query_order := Some (QStr ''up'')\<rparr>) \<noteq> Some None
   \<and> fst (list_todos ''r'' (no_query\<lparr>query_order := Some (QStr ''up'')\<rparr>) three_todos)
       = \<lparr>status = 200,
          body = ListBody [todo_a, todo_b, todo_c]
            \<lparr>meta_total = 3, meta_limit = Fin 20, meta_offset = Fin 0,
             meta_hasNext = False, meta_hasPrev = False\<rparr>\<rparr>
   \<and> list_todos ''r'' (no_query\<lparr>query_order := Some (QStr ''up'')\<rparr>) three_todos
       = list_todos ''r'' (no_query\<lparr>query_order := Some (QStr ''up''), query_order := Some (QStr ''asc'')\<rparr>) three_todos
   \<and> sorted_wrt (\<lambda>a b. \<not> gt_key ''createdAt'' a b) [todo_a, todo_b, todo_c]"
proof -
  let ?up = "no_query\<lparr>query_order := Some (QStr ''up'')\<rparr>"
  have a: "query_order no_query = None" by (simp add: no_query_def)
  have u: "order_of ?up \<noteq> ''desc''" by code_simp
  have v1: "done_of no_query \<noteq> Some None" by code_simp
  have v2: "done_of ?up \<noteq> Some None" by code_simp
  have k1: "key_of (sort_of no_query) = ''createdAt''" by code_simp
  have k2: "key_of (sort_of ?up) = ''createdAt''" by code_simp
  have r1: "fst (list_todos ''r'' no_query three_todos)
       = \<lparr>status = 200,
          body = ListBody [todo_c, todo_b, todo_a]
            \<lparr>meta_total = 3, meta_limit = Fin 20, meta_offset = Fin 0,
             meta_hasNext = False, meta_hasPrev = False\<rparr>\<rparr>"
    by code_simp
  have r2: "fst (list_todos ''r'' ?up three_todos)
       = \<lparr>status = 200,
          body = ListBody [todo_a, todo_b, todo_c]
            \<lparr>meta_total = 3, meta_limit = Fin 20, meta_offset = Fin 0,
             meta_hasNext = False, meta_hasPrev = False\<rparr>\<rparr>"
    by code_simp
  note t1 = order_default_desc [of no_query "''r''" three_todos "''id''" todo_a todo_b]
  note t2 = order_default_desc [of ?up "''r''" three_todos "''id''" todo_a todo_b]
  have d: "order_of no_query = ''desc''"
    and e1: "list_todos ''r'' no_query three_todos
       = list_todos ''r'' (no_query\<lparr>query_order := Some (QStr ''desc'')\<rparr>) three_todos"
    using t1 [THEN conjunct1, THEN mp, OF disjI1 [OF a]] by simp_all
  have e2: "list_todos ''r'' ?up three_todos
       = list_todos ''r'' (?up\<lparr>query_order := Some (QStr ''asc'')\<rparr>) three_todos"
    by (rule t2 [THEN conjunct2, THEN conjunct1, THEN mp, OF u])
  from t1 [THEN conjunct2, THEN conjunct2, THEN conjunct1, THEN mp, OF v1]
  obtain page1 m1 where
    p1: "fst (list_todos ''r'' no_query three_todos) = \<lparr>status = 200, body = ListBody page1 m1\<rparr>"
    and s1: "if order_of no_query = ''desc''
             then sorted_wrt (\<lambda>a b. \<not> gt_key (key_of (sort_of no_query)) b a) page1
             else sorted_wrt (\<lambda>a b. \<not> gt_key (key_of (sort_of no_query)) a b) page1"
    by blast
  from p1 have "page1 = [todo_c, todo_b, todo_a]" unfolding r1 by simp
  then have z1: "sorted_wrt (\<lambda>a b. \<not> gt_key ''createdAt'' b a) [todo_c, todo_b, todo_a]"
    using s1 d k1 by simp
  from t2 [THEN conjunct2, THEN conjunct2, THEN conjunct1, THEN mp, OF v2]
  obtain page2 m2 where
    p2: "fst (list_todos ''r'' ?up three_todos) = \<lparr>status = 200, body = ListBody page2 m2\<rparr>"
    and s2: "if order_of ?up = ''desc''
             then sorted_wrt (\<lambda>a b. \<not> gt_key (key_of (sort_of ?up)) b a) page2
             else sorted_wrt (\<lambda>a b. \<not> gt_key (key_of (sort_of ?up)) a b) page2"
    by blast
  from p2 have "page2 = [todo_a, todo_b, todo_c]" unfolding r2 by simp
  then have z2: "sorted_wrt (\<lambda>a b. \<not> gt_key ''createdAt'' a b) [todo_a, todo_b, todo_c]"
    using s2 u k2 by simp
  show ?thesis
    using a d v1 r1 e1 z1 u v2 r2 e2 z2 by (intro conjI)
qed

subsection \<open>The done filter\<close>

lemma set_js_slice: "set (js_slice s e xs) \<subseteq> set xs"
proof -
  have "set (take n (drop k xs)) \<subseteq> set xs" for n k
    using set_take_subset set_drop_subset by fast
  then show ?thesis by (simp add: js_slice_def Let_def)
qed

lemma done_of_valid:
  "query_done qry = Some v \<Longrightarrow> toString v = ''true'' \<or> toString v = ''false''
   \<Longrightarrow> done_of qry = Some (Some (toString v = ''true''))"
  by (auto simp add: done_of_def parseBool_def)

lemma done_of_invalid:
  "query_done qry = Some v \<Longrightarrow> toString v \<noteq> ''true'' \<Longrightarrow> toString v \<noteq> ''false''
   \<Longrightarrow> done_of qry = Some None"
  by (simp add: done_of_def parseBool_def)

lemma done_update_others:
  "q_of (qry\<lparr>query_done := v\<rparr>) = q_of qry"
  "done_of (qry\<lparr>query_done := None\<rparr>) = None"
  by (simp_all add: q_of_def done_of_def)

lemma selected_done:
  "done_of qry = Some (Some b) \<Longrightarrow>
   selected qry xs = filter (\<lambda>t. t_done t = b) (selected (qry\<lparr>query_done := None\<rparr>) xs)"
  by (simp add: selected_def done_update_others)

text \<open>
  C8. A \<^verbatim>\<open>done\<close> parameter whose string is neither \<^verbatim>\<open>true\<close> nor \<^verbatim>\<open>false\<close> is answered
  with status 400 and the code VALIDATION_ERROR in the error envelope (and the store is
  left as it was). One that is \<^verbatim>\<open>true\<close> or
  \<^verbatim>\<open>false\<close> keeps, of the todos the \<^verbatim>\<open>q\<close> filter kept, exactly those whose \<^verbatim>\<open>done\<close>
  is that boolean: they are what is sorted and paged, every todo of the page is one of
  them, and \<^verbatim>\<open>total\<close> is their number.
\<close>

theorem done_filter_exact:
  "(query_done qry = Some v \<and> toString v \<noteq> ''true'' \<and> toString v \<noteq> ''false'' \<longrightarrow>
      list_todos rid qry st
        = (\<lparr>status = 400,
            body = ErrorBody ''VALIDATION_ERROR'' ''done must be true or false'' None rid\<rparr>, st))
   \<and> (query_done qry = Some v \<and> (toString v = ''true'' \<or> toString v = ''false'') \<longrightarrow>
      list_todos rid qry st
        = (page_response qry (ordered qry
             (filter (\<lambda>t. t_done t = (toString v = ''true''))
                (selected (qry\<lparr>query_done := None\<rparr>) (todos st)))), st)
      \<and> (\<exists>page m. fst (list_todos rid qry st) = \<lparr>status = 200, body = ListBody page m\<rparr>
            \<and> (\<forall>t \<in> set page. t \<in> set (todos st) \<and> t_done t = (toString v = ''true''))
            \<and> meta_total m = length (filter (\<lambda>t. t_done t = (toString v = ''true''))
                (selected (qry\<lparr>query_done := None\<rparr>) (todos st)))))"
proof (intro conjI impI)
  assume "query_done qry = Some v \<and> toString v \<noteq> ''true'' \<and> toString v \<noteq> ''false''"
  then have "done_of qry = Some None" using done_of_invalid by blast
  then show "list_todos rid qry st
        = (\<lparr>status = 400,
            body = ErrorBody ''VALIDATION_ERROR'' ''done must be true or false'' None rid\<rparr>, st)"
    by (simp add: list_todos_pure apiError_def)
next
  assume a: "query_done qry = Some v \<and> (toString v = ''true'' \<or> toString v = ''false'')"
  let ?b = "toString v = ''true''"
  let ?sel = "filter (\<lambda>t. t_done t = ?b) (selected (qry\<lparr>query_done := None\<rparr>) (todos st))"
  have d: "done_of qry = Some (Some ?b)" using a done_of_valid by blast
  show e: "list_todos rid qry st = (page_response qry (ordered qry ?sel), st)"
    using d by (simp add: list_todos_pure selected_done)
  have sub: "set (selected (qry\<lparr>query_done := None\<rparr>) (todos st)) \<subseteq> set (todos st)"
    by (auto simp add: selected_def done_of_def Let_def)
  let ?page = "js_slice (offset_of qry) (js_add (offset_of qry) (limit_of qry)) (ordered qry ?sel)"
  let ?m = "\<lparr>meta_total = length (ordered qry ?sel),
         meta_limit = limit_of qry,
         meta_offset = offset_of qry,
         meta_hasNext = js_lt (js_add (offset_of qry) (limit_of qry)) (Fin (of_nat (length (ordered qry ?sel)))),
         meta_hasPrev = js_lt (Fin 0) (offset_of qry)\<rparr>"
  have f: "fst (list_todos rid qry st) = \<lparr>status = 200, body = ListBody ?page ?m\<rparr>"
    unfolding e by (simp add: page_response_def)
  have "set ?page \<subseteq> set (ordered qry ?sel)"
    by (rule set_js_slice)
  then have "set ?page \<subseteq> set ?sel"
    by (simp add: ordered_def set_sort_by)
  then have g: "\<forall>t \<in> set ?page. t \<in> set (todos st) \<and> t_done t = ?b"
    using sub by auto
  have h: "meta_total ?m = length ?sel"
    by (simp add: ordered_def length_sort_by)
  show "\<exists>page m. fst (list_todos rid qry st) = \<lparr>status = 200, body = ListBody page m\<rparr>
            \<and> (\<forall>t \<in> set page. t \<in> set (todos st) \<and> t_done t = (toString v = ''true''))
            \<and> meta_total m = length ?sel"
    using f g h by (intro exI [of _ ?page] exI [of _ ?m] conjI)
qed



theorem done_filter_exact_witness:
  "query_done (no_query\<lparr>query_done := Some (QStr ''true'')\<rparr>) = Some (QStr ''true'')
   \<and> map t_done (todos three_todos) = [True, False, True]
   \<and> list_todos ''r'' (no_query\<lparr>query_done := Some (QStr ''true'')\<rparr>) three_todos
       = (\<lparr>status = 200,
           body = ListBody [todo_c, todo_a]
             \<lparr>meta_total = 2, meta_limit = Fin 20, meta_offset = Fin 0,
              meta_hasNext = False, meta_hasPrev = False\<rparr>\<rparr>, three_todos)
   \<and> query_done (no_query\<lparr>query_done := Some (QStr ''maybe'')\<rparr>) = Some (QStr ''maybe'')
   \<and> toString (QStr ''maybe'') \<noteq> ''true'' \<and> toString (QStr ''maybe'') \<noteq> ''false''
   \<and> list_todos ''r'' (no_query\<lparr>query_done := Some (QStr ''maybe'')\<rparr>) three_todos
       = (\<lparr>status = 400,
           body = ErrorBody ''VALIDATION_ERROR'' ''done must be true or false'' None ''r''\<rparr>, three_todos)"
proof -
  have q1: "query_done (no_query\<lparr>query_done := Some (QStr ''true'')\<rparr>) = Some (QStr ''true'')"
    and q2: "query_done (no_query\<lparr>query_done := Some (QStr ''maybe'')\<rparr>) = Some (QStr ''maybe'')"
    by simp_all
  have s1: "toString (QStr ''true'') = ''true''"
    and s2: "toString (QStr ''maybe'') \<noteq> ''true''"
    and s3: "toString (QStr ''maybe'') \<noteq> ''false''"
    by simp_all
  have d: "map t_done (todos three_todos) = [True, False, True]"
    by (simp add: three_todos_def todo_a_def todo_b_def todo_c_def)
  have p: "page_response (no_query\<lparr>query_done := Some (QStr ''true'')\<rparr>)
        (ordered (no_query\<lparr>query_done := Some (QStr ''true'')\<rparr>)
          (filter (\<lambda>t. t_done t = (toString (QStr ''true'') = ''true''))
            (selected (no_query\<lparr>query_done := Some (QStr ''true''), query_done := None\<rparr>) (todos three_todos))))
      = \<lparr>status = 200,
           body = ListBody [todo_c, todo_a]
             \<lparr>meta_total = 2, meta_limit = Fin 20, meta_offset = Fin 0,
              meta_hasNext = False, meta_hasPrev = False\<rparr>\<rparr>"
    by code_simp
  have r1: "list_todos ''r'' (no_query\<lparr>query_done := Some (QStr ''true'')\<rparr>) three_todos
       = (page_response (no_query\<lparr>query_done := Some (QStr ''true'')\<rparr>)
        (ordered (no_query\<lparr>query_done := Some (QStr ''true'')\<rparr>)
          (filter (\<lambda>t. t_done t = (toString (QStr ''true'') = ''true''))
            (selected (no_query\<lparr>query_done := Some (QStr ''true''), query_done := None\<rparr>) (todos three_todos)))),
          three_todos)"
    by (rule done_filter_exact [of "no_query\<lparr>query_done := Some (QStr ''true'')\<rparr>" "QStr ''true''" "''r''" three_todos,
          THEN conjunct2, THEN mp, THEN conjunct1])
       simp
  have r2: "list_todos ''r'' (no_query\<lparr>query_done := Some (QStr ''maybe'')\<rparr>) three_todos
       = (\<lparr>status = 400,
           body = ErrorBody ''VALIDATION_ERROR'' ''done must be true or false'' None ''r''\<rparr>, three_todos)"
    by (rule done_filter_exact [of "no_query\<lparr>query_done := Some (QStr ''maybe'')\<rparr>" "QStr ''maybe''" "''r''" three_todos,
          THEN conjunct1, THEN mp])
       simp
  show ?thesis
    unfolding r1 r2 p using q1 q2 s2 s3 d by (intro conjI refl)
qed

subsection \<open>Pagination\<close>

text \<open>
  C2. The limit is capped at 100 but has no lower clamp. For \<^verbatim>\<open>limit=-1\<close> and three todos
  the effective limit is \<open>-1\<close>, and \<^verbatim>\<open>slice(0, -1)\<close> returns the sorted todos without the
  last one: two items, with \<^verbatim>\<open>hasNext\<close> true.
\<close>

theorem negative_limit_not_clamped:
  "limit_of (no_query\<lparr>query_limit := Some (QStr ''-1'')\<rparr>) = Fin (- 1)
   \<and> list_todos ''r'' (no_query\<lparr>query_limit := Some (QStr ''-1'')\<rparr>) three_todos
       = (\<lparr>status = 200,
           body = ListBody [todo_c, todo_b]
             \<lparr>meta_total = 3, meta_limit = Fin (- 1), meta_offset = Fin 0,
              meta_hasNext = True, meta_hasPrev = False\<rparr>\<rparr>, three_todos)"
  by code_simp

lemma limit_of_default:
  "query_limit qry = None \<or> query_limit qry = Some (QStr []) \<Longrightarrow> limit_of qry = Fin 20"
  by (auto simp add: limit_of_def Math_min_def)

lemma offset_of_default:
  "query_offset qry = None \<or> query_offset qry = Some (QStr []) \<Longrightarrow> offset_of qry = Fin 0"
  by (auto simp add: offset_of_def Math_max_def)

lemma limit_of_capped: "\<not> js_lt (Fin 100) (limit_of qry)"
  by (cases "number_or (query_limit qry) 20") (simp_all add: limit_of_def Math_min_def)

lemma offset_of_clamped: "\<not> js_lt (offset_of qry) (Fin 0)"
  by (cases "number_or (query_offset qry) 0") (simp_all add: offset_of_def Math_max_def)

lemma trunc_of_nat: "trunc (of_nat k) = int k"
  by (simp add: trunc_def)

lemma js_lt_nat: "js_lt (Fin (of_nat m)) (Fin (of_nat n)) = (m < n)"
  by simp

lemma js_slice_nat:
  assumes "k + l \<le> 2 ^ 53"
  shows "js_slice (Fin (of_nat k)) (js_add (Fin (of_nat k)) (Fin (of_nat l))) xs = take l (drop k xs)"
proof -
  have a: "rel_index (Fin (of_nat k)) (length xs) = min k (length xs)"
    by (simp add: rel_index_def trunc_of_nat)
  have b: "rel_index (js_add (Fin (of_nat k)) (Fin (of_nat l))) (length xs) = min (k + l) (length xs)"
    unfolding js_add_nat [OF assms] by (simp add: rel_index_def trunc_of_nat del: of_nat_add)
  show ?thesis
  proof (cases "k < length xs")
    case True
    then show ?thesis unfolding js_slice_def Let_def a b
      by (cases "k + l \<le> length xs") (simp_all add: min_def)
  next
    case False
    then show ?thesis unfolding js_slice_def Let_def a b by simp
  qed
qed

text \<open>
  For a limit and an offset that are natural numbers (with an exact sum) the page is the
  items from \<open>offset\<close> up to, not including, \<open>offset + limit\<close>; the limit is never above
  100 and the offset never below 0, and their defaults are 20 and 0.
\<close>

theorem page_of_natural_limit_and_offset:
  "(limit_of qry = Fin (of_nat l) \<and> offset_of qry = Fin (of_nat k) \<and> k + l \<le> 2 ^ 53
      \<and> done_of qry \<noteq> Some None \<longrightarrow>
      list_todos rid qry st
        = (\<lparr>status = 200,
            body = ListBody (take l (drop k (ordered qry (selected qry (todos st)))))
              \<lparr>meta_total = length (selected qry (todos st)),
               meta_limit = Fin (of_nat l),
               meta_offset = Fin (of_nat k),
               meta_hasNext = (k + l < length (selected qry (todos st))),
               meta_hasPrev = (0 < k)\<rparr>\<rparr>, st))
   \<and> \<not> js_lt (Fin 100) (limit_of qry)
   \<and> \<not> js_lt (offset_of qry) (Fin 0)
   \<and> (query_limit qry = None \<longrightarrow> limit_of qry = Fin 20)
   \<and> (query_offset qry = None \<longrightarrow> offset_of qry = Fin 0)"
proof (intro conjI impI)
  assume h: "limit_of qry = Fin (of_nat l) \<and> offset_of qry = Fin (of_nat k) \<and> k + l \<le> 2 ^ 53
      \<and> done_of qry \<noteq> Some None"
  then have s: "k + l \<le> 2 ^ 53" by simp
  have a: "js_lt (js_add (Fin (of_nat k)) (Fin (of_nat l))) (Fin (of_nat n)) = (k + l < n)" for n
    unfolding js_add_nat [OF s] by (rule js_lt_nat)
  have b: "js_lt (Fin 0) (Fin (of_nat k)) = (0 < k)"
    by simp
  show "list_todos rid qry st
        = (\<lparr>status = 200,
            body = ListBody (take l (drop k (ordered qry (selected qry (todos st)))))
              \<lparr>meta_total = length (selected qry (todos st)),
               meta_limit = Fin (of_nat l),
               meta_offset = Fin (of_nat k),
               meta_hasNext = (k + l < length (selected qry (todos st))),
               meta_hasPrev = (0 < k)\<rparr>\<rparr>, st)"
    using h
    by (simp add: list_todos_pure page_response_def js_slice_nat [OF s] a b ordered_def length_sort_by
        del: js_add.simps js_lt.simps of_nat_add)
next
  show "\<not> js_lt (Fin 100) (limit_of qry)" by (rule limit_of_capped)
next
  show "\<not> js_lt (offset_of qry) (Fin 0)" by (rule offset_of_clamped)
next
  assume "query_limit qry = None"
  then show "limit_of qry = Fin 20" by (simp add: limit_of_default)
next
  assume "query_offset qry = None"
  then show "offset_of qry = Fin 0" by (simp add: offset_of_default)
qed

theorem page_of_natural_limit_and_offset_witness:
  "limit_of (no_query\<lparr>query_limit := Some (QStr ''2''), query_offset := Some (QStr ''2'')\<rparr>) = Fin (of_nat 2)
   \<and> offset_of (no_query\<lparr>query_limit := Some (QStr ''2''), query_offset := Some (QStr ''2'')\<rparr>) = Fin (of_nat 2)
   \<and> done_of (no_query\<lparr>query_limit := Some (QStr ''2''), query_offset := Some (QStr ''2'')\<rparr>) \<noteq> Some None
   \<and> list_todos ''r'' (no_query\<lparr>query_limit := Some (QStr ''2''), query_offset := Some (QStr ''2'')\<rparr>) three_todos
       = (\<lparr>status = 200,
           body = ListBody [todo_a]
             \<lparr>meta_total = 3, meta_limit = Fin 2, meta_offset = Fin 2,
              meta_hasNext = False, meta_hasPrev = True\<rparr>\<rparr>, three_todos)
   \<and> limit_of (no_query\<lparr>query_limit := Some (QStr ''250'')\<rparr>) = Fin 100
   \<and> offset_of (no_query\<lparr>query_offset := Some (QStr ''-3'')\<rparr>) = Fin 0
   \<and> limit_of no_query = Fin 20 \<and> offset_of no_query = Fin 0"
proof -
  let ?q = "no_query\<lparr>query_limit := Some (QStr ''2''), query_offset := Some (QStr ''2'')\<rparr>"
  have l: "limit_of ?q = Fin (of_nat 2)" by code_simp
  have o: "offset_of ?q = Fin (of_nat 2)" by code_simp
  have d: "done_of ?q \<noteq> Some None" by code_simp
  have s: "take 2 (drop 2 (ordered ?q (selected ?q (todos three_todos)))) = [todo_a]"
    "length (selected ?q (todos three_todos)) = 3"
    by code_simp+
  have c: "limit_of (no_query\<lparr>query_limit := Some (QStr ''250'')\<rparr>) = Fin 100"
    "offset_of (no_query\<lparr>query_offset := Some (QStr ''-3'')\<rparr>) = Fin 0"
    by code_simp+
  have n: "query_limit no_query = None" "query_offset no_query = None"
    by (simp_all add: no_query_def)
  note t1 = page_of_natural_limit_and_offset [of ?q 2 2 "''r''" three_todos]
  note t2 = page_of_natural_limit_and_offset [of no_query 20 0 "''r''" three_todos]
  have r: "list_todos ''r'' ?q three_todos
       = (\<lparr>status = 200,
           body = ListBody [todo_a]
             \<lparr>meta_total = 3, meta_limit = Fin 2, meta_offset = Fin 2,
              meta_hasNext = False, meta_hasPrev = True\<rparr>\<rparr>, three_todos)"
    using t1 l o d s by simp
  have e: "limit_of no_query = Fin 20" "offset_of no_query = Fin 0"
    using t2 n by simp_all
  show ?thesis using l o d r c e by (intro conjI)
qed

end
